theory Spec2Isabelle
  imports Complex_Main
begin

section \<open>The signature dialog of web/signature\_manager.js\<close>

text \<open>
  A shallow embedding of the two classes of \<^verbatim>\<open>src/web/signature_manager.js\<close>:
  \<^verbatim>\<open>SignatureManager\<close> (the add-signature dialog) and \<^verbatim>\<open>EditDescriptionDialog\<close>.
  The private fields of a class and the properties of the DOM elements it writes are the
  fields of one record; every method and every event listener is a function from the
  state to a result. A JavaScript exception (here always a \<^verbatim>\<open>TypeError\<close> on an
  access through \<^verbatim>\<open>null\<close>) is the left summand of the result, together with the
  state at the moment of the throw: what the listener wrote before it threw stays
  written, and the dialog goes on receiving events.

  Conventions.
  \<^item> A field \<open>x_prop\<close> is the property \<open>prop\<close> of the element held in \<^verbatim>\<open>#x\<close>.
  \<^item> \<^verbatim>\<open>null\<close>/\<^verbatim>\<open>undefined\<close> is \<open>None\<close>; the truthiness of a string is
    \<open>s \<noteq> []\<close>, of an object reference \<open>r \<noteq> None\<close>.
  \<^item> Calls on collaborators that are not part of the file (store, codec, host editor,
    overlay manager, console) are recorded, in order, in the field \<open>effects\<close>; the
    values they return are parameters of the function that awaits them.
  \<^item> An \<^verbatim>\<open>await\<close> inside a handler is where other events can run. The image
    extraction and the localisation lookup are therefore split into the part before the
    \<^verbatim>\<open>await\<close> and the continuation, which is an event of its own; \<^verbatim>\<open>#add\<close>
    takes what happens to the dialog during each of its two awaits as an argument.
  \<^item> Attributes with no influence on the controller's state (\<^verbatim>\<open>aria-selected\<close>,
    \<^verbatim>\<open>tabindex\<close>, \<^verbatim>\<open>data-l10n-args\<close>, focus, \<^verbatim>\<open>preventDefault\<close>, pointer
    capture, the drag-over drop effect) are left out, and so are the methods that only
    fill the toolbar (\<^verbatim>\<open>loadSignatures\<close>, \<^verbatim>\<open>#signaturesChanged\<close>,
    \<^verbatim>\<open>renderEditButton\<close>).
  \<^item> A path element appended to an SVG element is represented by the field that refers
    to it (\<^verbatim>\<open>#drawPath\<close>, \<^verbatim>\<open>#imagePath\<close>).
\<close>

subsection \<open>Data\<close>

text \<open>The keys of \<^verbatim>\<open>#tabButtons\<close>: "type", "draw", "image".\<close>

datatype tab = TypeTab | DrawTab | ImageTab

datatype js_error = TypeError

text \<open>
  \<^verbatim>\<open>#drawPathString\<close> is kept as the list of the commands appended to it. The
  arguments of \<open>C\<close> are the exact quotients; JavaScript prints the nearest double.
\<close>

datatype path_cmd =
    M int int
  | L int int
  | C rat rat rat rat rat rat

text \<open>
  \<^verbatim>\<open>thickness\<close> of \<^verbatim>\<open>#drawCurves\<close> is first \<^verbatim>\<open>parseInt(value)\<close> and later the
  raw string written by the slider's listener.\<close>

datatype thickness = ParseInt string | RawValue string

record draw_curves =
  dc_width :: rat
  dc_height :: rat
  dc_thickness :: thickness
  dc_curves :: "int list list"

text \<open>The \<^verbatim>\<open>path\<close> element of the draw tab with its two attributes.\<close>

record draw_path =
  dp_stroke_width :: string
  dp_d :: "path_cmd list option"

record outline =
  ol_viewBox :: string
  ol_svgPath :: string

text \<open>
  What the host editor's \<^verbatim>\<open>getFromText\<close>, \<^verbatim>\<open>getDrawnSignature\<close> and
  \<^verbatim>\<open>getFromImage\<close> return: the object that \<^verbatim>\<open>#add\<close> destructures.\<close>

record payload =
  p_outline :: "outline option"
  p_newCurves :: "rat list list"
  p_areContours :: bool
  p_thickness :: rat
  p_width :: rat
  p_height :: rat

text \<open>
  A file of the picker or of a drop. \<open>f_type_supported\<close> is
  \<^verbatim>\<open>SupportedImageMimeTypes.includes(file.type)\<close>; the list is imported from pdfjs-lib.\<close>

record image_file =
  f_name :: string
  f_type_supported :: bool

text \<open>The outcome of \<^verbatim>\<open>await imageManager.getFromFile(file)\<close>.\<close>

datatype decode_result = DecodeThrew | DecodeFalsy | Decoded

text \<open>
  A \<^verbatim>\<open>pointerdown\<close> event as \<^verbatim>\<open>drawCallback\<close> reads it, with the bounding
  rectangle of \<^verbatim>\<open>#drawSVG\<close> at that moment.\<close>

record pointer_down =
  pd_pointerId :: nat
  pd_offsetX :: rat
  pd_offsetY :: rat
  pd_target_is_placeholder :: bool
  pd_rect_width :: rat
  pd_rect_height :: rat

record editor =
  ed_drawId_is_null :: bool

datatype effect =
    ConsoleError
  | ConsoleWarn
  | StoreIsFull
  | OverlayOpen
  | OverlayClose
  | CompressSignature "rat list list" bool rat rat rat
  | StoreCreate string
  | ToolbarButton string string
  | AddSignature "payload option" nat string "string option"
  | EditorRemove
  | RemoveEditListeners
  | AddEditListeners

record sm =
  addButton_disabled :: bool
  tabsToAltText :: "(tab option \<Rightarrow> string option) option"
  clearButton_disabled :: bool
  clearDescription_disabled :: bool
  currentEditor :: "editor option"
  description_value :: string
  descriptionContainer_value :: "string option"
  dialog_waiting :: bool
  drawCurves :: "draw_curves option"
  drawPlaceholder_hidden :: bool
  drawPath :: "draw_path option"
  drawPathString :: "path_cmd list"
  drawPoints :: "int list option"
  drawThickness_value :: string
  errorBar_hidden :: bool
  extractedSignatureData :: "payload option"
  imagePath :: "string option"
  imagePlaceholder_hidden :: bool
  imageSVG_viewBox :: "string option"
  saveCheckbox_checked :: bool
  saveContainer_disabled :: bool
  saveContainer_fullStorage :: bool
  addSignatureToolbarButton :: bool
  typeInput_value :: string
  currentTab :: "tab option"
  currentTabAC :: "tab option"
  hasDescriptionChanged :: bool
  uiManager :: bool
  panels_selected :: "tab option"
  overlay_active :: bool
  currentPointerId :: "nat option"
  strokeListeners :: "(rat \<times> rat) list"
  pendingL10n :: nat
  pendingExtract :: "string list"
  effects :: "effect list"

text \<open>
  \<open>addSignatureToolbarButton\<close> says whether the constructor was given the toolbar button
  (\<^verbatim>\<open>loadSignatures\<close> tests for it). Fields that are not private fields of the class:
  \<^item> \<open>descriptionContainer_value\<close>: the \<^verbatim>\<open>value\<close> property of the element passed
    as \<^verbatim>\<open>description\<close> to the constructor (the parent of the input and of the clear
    control). The constructor's \<^verbatim>\<open>input\<close> listener reads it; no code writes it.
  \<^item> \<open>currentTabAC\<close>: the tab whose listeners hang on the live \<^verbatim>\<open>#currentTabAC\<close>
    signal (\<open>None\<close>: no controller, or none registered).
  \<^item> \<open>currentPointerId\<close>: the variable of that name in the closure of
    \<^verbatim>\<open>#initDrawTab\<close>, \<open>None\<close> for \<^verbatim>\<open>NaN\<close>.
  \<^item> \<open>strokeListeners\<close>: one entry per live pair of \<^verbatim>\<open>pointermove\<close> /
    \<^verbatim>\<open>pointerup\<close> listeners, holding the \<^verbatim>\<open>drawWidth\<close>, \<^verbatim>\<open>drawHeight\<close> its
    closure captured.
  \<^item> \<open>pendingL10n\<close>, \<open>pendingExtract\<close>: the promises awaited and not yet settled.
  \<^item> \<open>overlay_active\<close>: \<^verbatim>\<open>overlayManager.active === dialog\<close>.
\<close>

subsection \<open>JavaScript helpers\<close>

text \<open>\<^verbatim>\<open>Math.round\<close>: the nearest integer, a half rounded up.\<close>

definition Math_round :: "rat \<Rightarrow> int" where
  "Math_round x = \<lfloor>x + 1 / 2\<rfloor>"

text \<open>\<^verbatim>\<open>xs.at(-k)\<close> for \<open>k \<ge> 1\<close>; \<^verbatim>\<open>undefined\<close> out of range.\<close>

definition at_neg :: "'a list \<Rightarrow> nat \<Rightarrow> 'a option" where
  "at_neg xs k = (if 1 \<le> k \<and> k \<le> length xs then Some (xs ! (length xs - k)) else None)"

text \<open>\<^verbatim>\<open>xs.slice(-4)\<close>.\<close>

definition slice_neg4 :: "'a list \<Rightarrow> 'a list" where
  "slice_neg4 xs = drop (length xs - 4) xs"

text \<open>
  Assigning \<^verbatim>\<open>Map.get\<close>'s result to an input's \<^verbatim>\<open>value\<close>: a missing key gives
  \<^verbatim>\<open>undefined\<close>, which the DOM converts to the string "undefined".\<close>

definition value_of_get :: "string option \<Rightarrow> string" where
  "value_of_get r = (case r of None \<Rightarrow> ''undefined'' | Some v \<Rightarrow> v)"

text \<open>The truthiness of what \<^verbatim>\<open>signatureStorage.create\<close> resolves to.\<close>

definition truthy_uuid :: "string option \<Rightarrow> bool" where
  "truthy_uuid u = (case u of None \<Rightarrow> False | Some v \<Rightarrow> v \<noteq> [])"

definition emit :: "effect \<Rightarrow> sm \<Rightarrow> sm" where
  "emit e s = s\<lparr>effects := effects s @ [e]\<rparr>"

subsection \<open>Resetting and selecting tabs\<close>

text \<open>\<^verbatim>\<open>#resetCommon\<close>. The two assignments precede the call that can throw.\<close>

definition resetCommon :: "sm \<Rightarrow> js_error \<times> sm + sm" where
  "resetCommon s =
     (let s1 = s\<lparr>hasDescriptionChanged := False, description_value := []\<rparr>
      in case tabsToAltText s1 of
           None \<Rightarrow> Inl (TypeError, s1)
         | Some m \<Rightarrow> Inr (s1\<lparr>tabsToAltText := Some (m(currentTab s1 := Some []))\<rparr>))"

text \<open>\<^verbatim>\<open>#resetTab\<close>. Removing a path element is forgetting the reference to it.\<close>

fun resetTab :: "tab \<Rightarrow> sm \<Rightarrow> sm" where
  "resetTab TypeTab s = s\<lparr>typeInput_value := []\<rparr>"
| "resetTab DrawTab s =
     s\<lparr>drawCurves := None, drawPoints := None, drawPathString := [], drawPath := None,
       drawPlaceholder_hidden := False, drawThickness_value := ''1''\<rparr>"
| "resetTab ImageTab s = s\<lparr>imagePlaceholder_hidden := False, imagePath := None\<rparr>"

text \<open>\<^verbatim>\<open>#disableButtons(value)\<close>, on the truthiness of its argument.\<close>

definition disableButtons :: "bool \<Rightarrow> sm \<Rightarrow> sm" where
  "disableButtons v s =
     s\<lparr>clearButton_disabled := \<not> v, addButton_disabled := \<not> v, saveContainer_disabled := \<not> v\<rparr>"

text \<open>
  \<^verbatim>\<open>#initTypeTab\<close>, \<^verbatim>\<open>#initDrawTab\<close>, \<^verbatim>\<open>#initImageTab\<close>: the part that runs
  at once. The listeners they register are the functions of the next subsections;
  registering them is setting \<open>currentTabAC\<close>. \<^verbatim>\<open>#initDrawTab\<close> starts a fresh closure,
  so \<open>currentPointerId\<close> is \<^verbatim>\<open>NaN\<close> again.\<close>

definition initTypeTab :: "bool \<Rightarrow> sm \<Rightarrow> sm" where
  "initTypeTab reset s =
     (let s1 = (if reset then resetTab TypeTab s else s);
          s2 = disableButtons (typeInput_value s1 \<noteq> []) s1
      in s2\<lparr>currentTabAC := Some TypeTab\<rparr>)"

definition initDrawTab :: "bool \<Rightarrow> sm \<Rightarrow> sm" where
  "initDrawTab reset s =
     (let s1 = (if reset then resetTab DrawTab s else s);
          s2 = disableButtons (drawPath s1 \<noteq> None) s1
      in s2\<lparr>currentTabAC := Some DrawTab, currentPointerId := None\<rparr>)"

definition initImageTab :: "bool \<Rightarrow> sm \<Rightarrow> sm" where
  "initImageTab reset s =
     (let s1 = (if reset then resetTab ImageTab s else s);
          s2 = disableButtons (imagePath s1 \<noteq> None) s1
      in s2\<lparr>currentTabAC := Some ImageTab\<rparr>)"

text \<open>
  \<^verbatim>\<open>#initTab(name)\<close>; \<open>None\<close> is the \<^verbatim>\<open>null\<close> the clear button passes. Its
  body is cut at its four statements:
  \<^item> \<open>snapshotDescription\<close>: \<^verbatim>\<open>if (#currentTab) #tabsToAltText.set(#currentTab, #description.value)\<close>;
  \<^item> \<open>setCurrentTab\<close>: \<^verbatim>\<open>if (name) #currentTab = name\<close>;
  \<^item> \<open>restoreDescription\<close>: \<^verbatim>\<open>#resetCommon()\<close> on a reset, else
    \<^verbatim>\<open>#description.value = #tabsToAltText.get(#currentTab)\<close>;
  \<^item> \<open>initCurrentTab\<close>: the clear-description control, \<^verbatim>\<open>#currentTabAC?.abort()\<close>
    (which removes the tab's listeners and, through \<^verbatim>\<open>AbortSignal.any\<close>, those of a
    stroke in progress), and the \<^verbatim>\<open>switch\<close> on the current tab.\<close>

definition bind_r ::
  "js_error \<times> sm + 'a \<Rightarrow> ('a \<Rightarrow> js_error \<times> sm + 'b) \<Rightarrow> js_error \<times> sm + 'b" where
  "bind_r r f = (case r of Inl e \<Rightarrow> Inl e | Inr x \<Rightarrow> f x)"

text \<open>The state a listener leaves behind, whether it returned or threw.\<close>

definition ending :: "js_error \<times> sm + sm \<Rightarrow> sm" where
  "ending r = (case r of Inl (e, s) \<Rightarrow> s | Inr s \<Rightarrow> s)"

definition snapshotDescription :: "sm \<Rightarrow> js_error \<times> sm + sm" where
  "snapshotDescription s =
     (case currentTab s of
        None \<Rightarrow> Inr s
      | Some cur \<Rightarrow>
          (case tabsToAltText s of
             None \<Rightarrow> Inl (TypeError, s)
           | Some m \<Rightarrow> Inr (s\<lparr>tabsToAltText := Some (m(Some cur := Some (description_value s)))\<rparr>)))"

definition setCurrentTab :: "tab option \<Rightarrow> sm \<Rightarrow> sm" where
  "setCurrentTab name s = (case name of None \<Rightarrow> s | Some n \<Rightarrow> s\<lparr>currentTab := Some n\<rparr>)"

definition restoreDescription :: "bool \<Rightarrow> sm \<Rightarrow> js_error \<times> sm + sm" where
  "restoreDescription reset s =
     (if reset then resetCommon s
      else (case tabsToAltText s of
              None \<Rightarrow> Inl (TypeError, s)
            | Some m \<Rightarrow> Inr (s\<lparr>description_value := value_of_get (m (currentTab s))\<rparr>)))"

definition initCurrentTab :: "bool \<Rightarrow> sm \<Rightarrow> sm" where
  "initCurrentTab reset s =
     (let s1 = s\<lparr>clearDescription_disabled := (description_value s = []),
                 currentTabAC := None, strokeListeners := []\<rparr>
      in (case currentTab s1 of
            None \<Rightarrow> s1
          | Some TypeTab \<Rightarrow> initTypeTab reset s1
          | Some DrawTab \<Rightarrow> initDrawTab reset s1
          | Some ImageTab \<Rightarrow> initImageTab reset s1))"

definition initTab :: "tab option \<Rightarrow> sm \<Rightarrow> js_error \<times> sm + sm" where
  "initTab name s =
     (if name \<noteq> None \<and> currentTab s = name then Inr s
      else bind_r (snapshotDescription s) (\<lambda>s1.
           bind_r (restoreDescription (name = None) (setCurrentTab name s1)) (\<lambda>s2.
           Inr (initCurrentTab (name = None) s2))))"

text \<open>\<^verbatim>\<open>tabCallback\<close> of \<^verbatim>\<open>#initTabButtons\<close>, for a click on the button of \<open>name\<close>.\<close>

definition tabCallback :: "tab \<Rightarrow> sm \<Rightarrow> js_error \<times> sm + sm" where
  "tabCallback name s = initTab (Some name) (s\<lparr>panels_selected := Some name\<rparr>)"

subsection \<open>Listeners registered by the constructor\<close>

text \<open>
  The \<^verbatim>\<open>input\<close> listener on the element \<^verbatim>\<open>description\<close> of the constructor's
  argument: it compares the \<^verbatim>\<open>value\<close> of that element, not of the input inside it.\<close>

definition description_input_listener :: "sm \<Rightarrow> sm" where
  "description_input_listener s =
     s\<lparr>clearDescription_disabled := (descriptionContainer_value s = Some [])\<rparr>"

definition clearDescription_click :: "sm \<Rightarrow> sm" where
  "clearDescription_click s = s\<lparr>description_value := [], clearDescription_disabled := True\<rparr>"

definition errorCloseButton_click :: "sm \<Rightarrow> sm" where
  "errorCloseButton_click s = s\<lparr>errorBar_hidden := True\<rparr>"

definition clearButton_click :: "sm \<Rightarrow> js_error \<times> sm + sm" where
  "clearButton_click s = initTab None s"

subsection \<open>Listeners of the type tab\<close>

text \<open>The \<^verbatim>\<open>input\<close> listener on \<^verbatim>\<open>#typeInput\<close>.\<close>

definition typeInput_input_listener :: "sm \<Rightarrow> sm" where
  "typeInput_input_listener s =
     (let v = typeInput_value s;
          s1 = (if \<not> hasDescriptionChanged s
                then s\<lparr>description_value := v, clearDescription_disabled := (v = [])\<rparr>
                else s)
      in disableButtons (v \<noteq> []) s1)"

text \<open>The \<^verbatim>\<open>input\<close> listener the type tab puts on \<^verbatim>\<open>#description\<close>.\<close>

definition typeTab_description_listener :: "sm \<Rightarrow> sm" where
  "typeTab_description_listener s =
     s\<lparr>hasDescriptionChanged := (typeInput_value s \<noteq> description_value s)\<rparr>"

subsection \<open>Listeners of the draw tab\<close>

text \<open>
  The branch \<^verbatim>\<open>if (!this.#drawCurves)\<close> of \<^verbatim>\<open>drawCallback\<close>. The lookup of the
  default description is started when the description is empty; its continuation is
  \<open>l10n_then\<close>.\<close>

definition firstStroke :: "pointer_down \<Rightarrow> sm \<Rightarrow> sm" where
  "firstStroke e s =
     (let s1 = disableButtons True
                 (s\<lparr>drawCurves :=
                      Some \<lparr>dc_width = pd_rect_width e, dc_height = pd_rect_height e,
                            dc_thickness = ParseInt (drawThickness_value s), dc_curves = []\<rparr>\<rparr>);
          s2 = s1\<lparr>drawPath := Some \<lparr>dp_stroke_width = drawThickness_value s1, dp_d = None\<rparr>\<rparr>
      in if description_value s2 = [] then s2\<lparr>pendingL10n := Suc (pendingL10n s2)\<rparr> else s2)"

text \<open>
  The rest of \<^verbatim>\<open>drawCallback\<close>: a stroke starts at the rounded point. The array
  \<^verbatim>\<open>#drawPoints\<close> is the \<^verbatim>\<open>points\<close> of the curve pushed with it, so both are
  written together here and in \<open>push_point\<close>.\<close>

definition beginStroke :: "int \<Rightarrow> int \<Rightarrow> rat \<times> rat \<Rightarrow> sm \<Rightarrow> js_error \<times> sm + sm" where
  "beginStroke x y wh s =
     (case drawCurves s of
        None \<Rightarrow> Inl (TypeError, s\<lparr>drawPoints := Some [x, y]\<rparr>)
      | Some dc \<Rightarrow>
          let s1 = s\<lparr>drawPoints := Some [x, y],
                      drawCurves := Some (dc\<lparr>dc_curves := dc_curves dc @ [[x, y]]\<rparr>),
                      drawPathString := drawPathString s @ [M x y]\<rparr>
          in (case drawPath s1 of
                None \<Rightarrow> Inl (TypeError, s1)
              | Some p \<Rightarrow>
                  Inr (s1\<lparr>drawPath := Some (p\<lparr>dp_d := Some (drawPathString s1)\<rparr>),
                          strokeListeners := strokeListeners s1 @ [wh]\<rparr>)))"

definition drawCallback :: "pointer_down \<Rightarrow> sm \<Rightarrow> js_error \<times> sm + sm" where
  "drawCallback e s =
     (if currentPointerId s \<noteq> None \<and> currentPointerId s \<noteq> Some (pd_pointerId e) then Inr s
      else
        let s1 = s\<lparr>currentPointerId := Some (pd_pointerId e)\<rparr>;
            offsetX = Math_round (pd_offsetX e);
            offsetY = Math_round (pd_offsetY e);
            s2 = (if pd_target_is_placeholder e then s1\<lparr>drawPlaceholder_hidden := True\<rparr> else s1);
            s3 = (if drawCurves s2 = None then firstStroke e s2 else s2)
        in beginStroke offsetX offsetY (pd_rect_width e, pd_rect_height e) s3)"

text \<open>\<^verbatim>\<open>drawPoints.push(x, y)\<close>, on the array shared with the last curve.\<close>

definition push_point :: "int \<Rightarrow> int \<Rightarrow> sm \<Rightarrow> sm" where
  "push_point x y s =
     (case drawPoints s of
        None \<Rightarrow> s
      | Some pts \<Rightarrow>
          s\<lparr>drawPoints := Some (pts @ [x, y]),
            drawCurves :=
              map_option
                (\<lambda>dc. dc\<lparr>dc_curves :=
                           (if dc_curves dc = [] then []
                            else butlast (dc_curves dc) @ [pts @ [x, y]])\<rparr>)
                (drawCurves s)\<rparr>)"

text \<open>
  The command a \<^verbatim>\<open>pointermove\<close> appends for the point \<open>(x, y)\<close>, from the flat array
  of the coordinates recorded so far.\<close>

definition move_cmd :: "int list \<Rightarrow> int \<Rightarrow> int \<Rightarrow> path_cmd" where
  "move_cmd pts x y =
     (if 4 \<le> length pts then
        (let q = slice_neg4 pts; x1 = q ! 0; y1 = q ! 1; x2 = q ! 2; y2 = q ! 3
         in C (of_int (x1 + 5 * x2) / 6) (of_int (y1 + 5 * y2) / 6)
              (of_int (5 * x2 + x) / 6) (of_int (5 * y2 + y) / 6)
              (of_int (x2 + x) / 2) (of_int (y2 + y) / 2))
      else L x y)"

text \<open>
  The \<^verbatim>\<open>pointermove\<close> listener of a stroke whose closure holds
  \<open>(drawWidth, drawHeight) = wh\<close>, for an event at offset \<open>(ox, oy)\<close>. The tests
  on the bounds come first in the disjunction, so \<^verbatim>\<open>#drawPoints\<close> is read only for a
  point on the surface.\<close>

definition pointermove_listener :: "rat \<times> rat \<Rightarrow> rat \<times> rat \<Rightarrow> sm \<Rightarrow> js_error \<times> sm + sm" where
  "pointermove_listener wh off s =
     (let x = Math_round (fst off); y = Math_round (snd off)
      in if x < 0 \<or> y < 0 \<or> of_int x > fst wh \<or> of_int y > snd wh then Inr s
         else
           (case drawPoints s of
              None \<Rightarrow> Inl (TypeError, s)
            | Some pts \<Rightarrow>
                if at_neg pts 2 = Some x \<and> at_neg pts 1 = Some y then Inr s
                else
                  let s1 = (push_point x y s)
                             \<lparr>drawPathString := drawPathString s @ [move_cmd pts x y]\<rparr>
                  in (case drawPath s1 of
                        None \<Rightarrow> Inl (TypeError, s1)
                      | Some p \<Rightarrow>
                          Inr (s1\<lparr>drawPath := Some (p\<lparr>dp_d := Some (drawPathString s1)\<rparr>)\<rparr>))))"

text \<open>
  The \<^verbatim>\<open>pointerup\<close> listener of a stroke. The flag returned says whether it went
  past the pointer check, that is whether \<^verbatim>\<open>finishDrawAC.abort()\<close> removed the
  stroke's listeners.\<close>

definition pointerup_listener :: "nat \<Rightarrow> sm \<Rightarrow> js_error \<times> sm + (bool \<times> sm)" where
  "pointerup_listener pId s =
     (if currentPointerId s \<noteq> None \<and> currentPointerId s \<noteq> Some pId then Inr (False, s)
      else
        let s1 = s\<lparr>currentPointerId := None\<rparr>
        in case drawPoints s1 of
             None \<Rightarrow> Inl (TypeError, s1)
           | Some pts \<Rightarrow>
               if length pts = 2 then
                 (let s2 = s1\<lparr>drawPathString := drawPathString s1 @ [L (pts ! 0) (pts ! 1)]\<rparr>
                  in case drawPath s2 of
                       None \<Rightarrow> Inl (TypeError, s2)
                     | Some p \<Rightarrow>
                         Inr (True, s2\<lparr>drawPath := Some (p\<lparr>dp_d := Some (drawPathString s2)\<rparr>)\<rparr>))
               else Inr (True, s1))"

text \<open>
  An event on \<^verbatim>\<open>#drawSVG\<close> runs the listeners of every live stroke, in order. A
  listener that throws does not keep the later ones from running; the dispatch then
  counts as thrown, with the state the last listener leaves.\<close>

fun dispatch_pointermove :: "rat \<times> rat \<Rightarrow> (rat \<times> rat) list \<Rightarrow> sm \<Rightarrow> js_error \<times> sm + sm" where
  "dispatch_pointermove off [] s = Inr s"
| "dispatch_pointermove off (wh # ls) s =
     (case pointermove_listener wh off s of
        Inr s1 \<Rightarrow> dispatch_pointermove off ls s1
      | Inl (e, s1) \<Rightarrow> Inl (e, ending (dispatch_pointermove off ls s1)))"

text \<open>
  The dispatch of a \<^verbatim>\<open>pointerup\<close> also gives the listeners that stay registered. A
  listener that throws has aborted its controller before.\<close>

fun dispatch_pointerup ::
  "nat \<Rightarrow> (rat \<times> rat) list \<Rightarrow> sm \<Rightarrow>
   js_error \<times> (rat \<times> rat) list \<times> sm + (rat \<times> rat) list \<times> sm" where
  "dispatch_pointerup pId [] s = Inr ([], s)"
| "dispatch_pointerup pId (wh # ls) s =
     (case pointerup_listener pId s of
        Inr (gone, s1) \<Rightarrow>
          (case dispatch_pointerup pId ls s1 of
             Inr (rest, s2) \<Rightarrow> Inr (if gone then rest else wh # rest, s2)
           | Inl (e, rest, s2) \<Rightarrow> Inl (e, if gone then rest else wh # rest, s2))
      | Inl (e, s1) \<Rightarrow>
          (case dispatch_pointerup pId ls s1 of
             Inr (rest, s2) \<Rightarrow> Inl (e, rest, s2)
           | Inl (e', rest, s2) \<Rightarrow> Inl (e, rest, s2)))"

text \<open>The \<^verbatim>\<open>input\<close> listener on \<^verbatim>\<open>#drawThickness\<close>.\<close>

definition drawThickness_input_listener :: "sm \<Rightarrow> js_error \<times> sm + sm" where
  "drawThickness_input_listener s =
     (let thickness = drawThickness_value s
      in case drawCurves s of
           None \<Rightarrow> Inr s
         | Some dc \<Rightarrow>
             (case drawPath s of
                None \<Rightarrow> Inl (TypeError, s)
              | Some p \<Rightarrow>
                  Inr (s\<lparr>drawPath := Some (p\<lparr>dp_stroke_width := thickness\<rparr>),
                         drawCurves := Some (dc\<lparr>dc_thickness := RawValue thickness\<rparr>)\<rparr>)))"

text \<open>The \<^verbatim>\<open>then\<close> callback of the default-description lookup.\<close>

definition l10n_then :: "string \<Rightarrow> sm \<Rightarrow> sm" where
  "l10n_then description s =
     (let s1 = (if description_value s = [] then s\<lparr>description_value := description\<rparr> else s)
      in s1\<lparr>clearDescription_disabled := (description_value s1 = [])\<rparr>)"

subsection \<open>Listeners of the image tab and the extraction\<close>

text \<open>The two exits of \<^verbatim>\<open>#extractSignature\<close> and of the picker that show the error bar.\<close>

definition showError :: "sm \<Rightarrow> sm" where
  "showError s = s\<lparr>errorBar_hidden := False, dialog_waiting := False\<rparr>"

text \<open>
  \<^verbatim>\<open>#extractSignature(file)\<close> up to its \<^verbatim>\<open>await\<close>. With no \<^verbatim>\<open>#uiManager\<close> the
  access throws inside the \<^verbatim>\<open>try\<close> and the function ends at once on the error exit.\<close>

definition extractSignature_begin :: "image_file \<Rightarrow> sm \<Rightarrow> sm" where
  "extractSignature_begin f s =
     (if uiManager s then s\<lparr>pendingExtract := pendingExtract s @ [f_name f]\<rparr>
      else showError (emit ConsoleError s))"

text \<open>The success exit of \<^verbatim>\<open>#extractSignature\<close>, for a truthy \<^verbatim>\<open>outline\<close>.\<close>

definition showImage :: "string \<Rightarrow> outline \<Rightarrow> sm \<Rightarrow> sm" where
  "showImage name ol s =
     (let s1 = disableButtons True (s\<lparr>imagePlaceholder_hidden := True\<rparr>);
          s2 = s1\<lparr>imagePath := Some (ol_svgPath ol), imageSVG_viewBox := Some (ol_viewBox ol)\<rparr>;
          s3 = (if description_value s2 = []
                then (let s' = s2\<lparr>description_value := (if name \<noteq> [] then name else [])\<rparr>
                      in s'\<lparr>clearDescription_disabled := (description_value s' = [])\<rparr>)
                else s2)
      in s3\<lparr>dialog_waiting := False\<rparr>)"

text \<open>
  \<^verbatim>\<open>#extractSignature\<close> after its \<^verbatim>\<open>await\<close>, for the file called \<open>name\<close>:
  \<open>dec\<close> is how \<^verbatim>\<open>getFromFile\<close> settled and \<open>traced\<close> what
  \<^verbatim>\<open>#currentEditor.getFromImage(data.bitmap)\<close> returns. The result is stored before it
  is destructured, and destructuring \<^verbatim>\<open>null\<close> throws.\<close>

definition extractSignature_resume ::
  "string \<Rightarrow> decode_result \<Rightarrow> payload option \<Rightarrow> sm \<Rightarrow> js_error \<times> sm + sm" where
  "extractSignature_resume name dec traced s =
     (case dec of
        DecodeThrew \<Rightarrow> Inr (showError (emit ConsoleError s))
      | DecodeFalsy \<Rightarrow> Inr (showError s)
      | Decoded \<Rightarrow>
          (case currentEditor s of
             None \<Rightarrow> Inl (TypeError, s)
           | Some ed \<Rightarrow>
               let s1 = s\<lparr>extractedSignatureData := traced\<rparr>
               in (case traced of
                     None \<Rightarrow> Inl (TypeError, s1)
                   | Some r \<Rightarrow>
                       (case p_outline r of
                          None \<Rightarrow> Inr (s1\<lparr>dialog_waiting := False\<rparr>)
                        | Some ol \<Rightarrow> Inr (showImage name ol s1)))))"

definition imagePicker_click :: "sm \<Rightarrow> sm" where
  "imagePicker_click s = s\<lparr>dialog_waiting := True\<rparr>"

text \<open>The \<^verbatim>\<open>change\<close> listener; \<open>fo\<close> is \<^verbatim>\<open>#imagePicker.files?.[0]\<close>.\<close>

definition imagePicker_change :: "image_file option \<Rightarrow> sm \<Rightarrow> sm" where
  "imagePicker_change fo s =
     (case fo of
        None \<Rightarrow> showError s
      | Some f \<Rightarrow> if \<not> f_type_supported f then showError s else extractSignature_begin f s)"

definition imagePicker_cancel :: "sm \<Rightarrow> sm" where
  "imagePicker_cancel s = s\<lparr>dialog_waiting := False\<rparr>"

text \<open>The \<^verbatim>\<open>drop\<close> listener on the placeholder, for the files of the drop.\<close>

definition imagePlaceholder_drop :: "image_file list \<Rightarrow> sm \<Rightarrow> sm" where
  "imagePlaceholder_drop files s =
     (if files = [] then s
      else
        let s1 = (case List.find f_type_supported files of
                    None \<Rightarrow> s
                  | Some f \<Rightarrow> extractSignature_begin f s)
        in s1\<lparr>dialog_waiting := True\<rparr>)"

subsection \<open>Opening and closing\<close>

text \<open>
  \<^verbatim>\<open>open({ uiManager, editor })\<close>. \<open>isStorageFull\<close> is what
  \<^verbatim>\<open>signatureStorage.isFull()\<close> resolves to. The last statement clicks the type
  button, which runs \<open>tabCallback\<close>.\<close>

definition open_dialog :: "bool \<Rightarrow> editor \<Rightarrow> sm \<Rightarrow> js_error \<times> sm + sm" where
  "open_dialog isStorageFull ed s =
     (let s1 = s\<lparr>tabsToAltText :=
                    (case tabsToAltText s of
                       None \<Rightarrow> Some (\<lambda>k. case k of None \<Rightarrow> None | Some n \<Rightarrow> Some [])
                     | Some m \<Rightarrow> Some m),
                  uiManager := True, currentEditor := Some ed\<rparr>;
          s2 = emit StoreIsFull (emit RemoveEditListeners s1);
          s3 = s2\<lparr>saveContainer_fullStorage := isStorageFull,
                   saveCheckbox_checked := (\<not> isStorageFull)\<rparr>;
          s4 = (emit OverlayOpen s3)\<lparr>overlay_active := True\<rparr>
      in tabCallback TypeTab s4)"

text \<open>\<^verbatim>\<open>#finish\<close>; \<^verbatim>\<open>#cancel\<close> only calls it.\<close>

definition finish :: "sm \<Rightarrow> sm" where
  "finish s = (if overlay_active s then (emit OverlayClose s)\<lparr>overlay_active := False\<rparr> else s)"

definition cancel :: "sm \<Rightarrow> sm" where
  "cancel s = finish s"

text \<open>\<^verbatim>\<open>#close\<close>, the listener of the dialog's \<^verbatim>\<open>close\<close> event.\<close>

definition close :: "sm \<Rightarrow> js_error \<times> sm + sm" where
  "close s =
     (case currentEditor s of
        None \<Rightarrow> Inl (TypeError, s)
      | Some ed \<Rightarrow>
          let s1 = (if ed_drawId_is_null ed then emit EditorRemove s else s);
              s2 = (if uiManager s1 then emit AddEditListeners s1 else s1);
              s3 = s2\<lparr>currentTabAC := None, strokeListeners := [], uiManager := False,
                       currentEditor := None\<rparr>
          in bind_r (resetCommon s3) (\<lambda>s4.
             Inr ((disableButtons False (resetTab ImageTab (resetTab DrawTab (resetTab TypeTab s4))))
                    \<lparr>currentTab := None, tabsToAltText := None\<rparr>)))"

subsection \<open>Events of an open dialog\<close>

text \<open>
  What can happen to an open dialog, short of committing or closing it. An input event
  carries the new value of its control; a listener of a tab runs only while that tab's
  listeners are registered; a continuation runs only for a promise that is pending.
  \<open>PointerDown\<close> is a \<^verbatim>\<open>pointerdown\<close> delivered to \<^verbatim>\<open>drawCallback\<close>, on
  whichever of the placeholder and the SVG element the listener currently is.\<close>

datatype event =
    TabClick tab
  | ClearClick
  | TypeInput string
  | DescriptionInput string
  | ClearDescriptionClick
  | ErrorCloseClick
  | SaveCheckboxToggle
  | PointerDown pointer_down
  | PointerMove rat rat
  | PointerUp nat
  | ThicknessInput string
  | L10nResolved string
  | PickerClick
  | PickerChange "image_file option"
  | PickerCancel
  | Drop "image_file list"
  | ExtractResolved string decode_result "payload option"

fun step :: "event \<Rightarrow> sm \<Rightarrow> js_error \<times> sm + sm" where
  "step (TabClick n) s = tabCallback n s"
| "step ClearClick s = clearButton_click s"
| "step (TypeInput v) s =
     (let s1 = s\<lparr>typeInput_value := v\<rparr>
      in Inr (if currentTabAC s1 = Some TypeTab then typeInput_input_listener s1 else s1))"
| "step (DescriptionInput v) s =
     (let s1 = s\<lparr>description_value := v\<rparr>;
          s2 = (if currentTabAC s1 = Some TypeTab then typeTab_description_listener s1 else s1)
      in Inr (description_input_listener s2))"
| "step ClearDescriptionClick s = Inr (clearDescription_click s)"
| "step ErrorCloseClick s = Inr (errorCloseButton_click s)"
| "step SaveCheckboxToggle s = Inr (s\<lparr>saveCheckbox_checked := \<not> saveCheckbox_checked s\<rparr>)"
| "step (PointerDown e) s = (if currentTabAC s = Some DrawTab then drawCallback e s else Inr s)"
| "step (PointerMove ox oy) s = dispatch_pointermove (ox, oy) (strokeListeners s) s"
| "step (PointerUp pId) s =
     (case dispatch_pointerup pId (strokeListeners s) s of
        Inr (rest, s1) \<Rightarrow> Inr (s1\<lparr>strokeListeners := rest\<rparr>)
      | Inl (e, rest, s1) \<Rightarrow> Inl (e, s1\<lparr>strokeListeners := rest\<rparr>))"
| "step (ThicknessInput v) s =
     (let s1 = s\<lparr>drawThickness_value := v\<rparr>
      in if currentTabAC s1 = Some DrawTab then drawThickness_input_listener s1 else Inr s1)"
| "step (L10nResolved d) s =
     (if pendingL10n s = 0 then Inr s
      else Inr (l10n_then d (s\<lparr>pendingL10n := pendingL10n s - 1\<rparr>)))"
| "step PickerClick s = Inr (if currentTabAC s = Some ImageTab then imagePicker_click s else s)"
| "step (PickerChange fo) s =
     Inr (if currentTabAC s = Some ImageTab then imagePicker_change fo s else s)"
| "step PickerCancel s = Inr (if currentTabAC s = Some ImageTab then imagePicker_cancel s else s)"
| "step (Drop files) s =
     Inr (if currentTabAC s = Some ImageTab then imagePlaceholder_drop files s else s)"
| "step (ExtractResolved name dec traced) s =
     (if name \<in> set (pendingExtract s)
      then extractSignature_resume name dec traced
             (s\<lparr>pendingExtract := remove1 name (pendingExtract s)\<rparr>)
      else Inr s)"

text \<open>
  The events are delivered one after the other. A listener that throws leaves the state
  it reached, and the events after it are delivered all the same; the run then counts as
  thrown, with the state after its last event.\<close>

fun run :: "event list \<Rightarrow> sm \<Rightarrow> js_error \<times> sm + sm" where
  "run [] s = Inr s"
| "run (e # es) s =
     (case step e s of
        Inr s1 \<Rightarrow> run es s1
      | Inl (err, s1) \<Rightarrow> Inl (err, ending (run es s1)))"

text \<open>
  A closed dialog: the private fields as their initialisers and \<^verbatim>\<open>#close\<close> leave
  them, the controls as \<^verbatim>\<open>#close\<close> leaves them. The properties no code of the class
  initialises (the save checkbox, the error bar, the waiting class, the \<^verbatim>\<open>value\<close> of
  the description's container) are fixed to one choice.\<close>

definition closed_dialog :: sm where
  "closed_dialog =
     \<lparr>addButton_disabled = True, tabsToAltText = None, clearButton_disabled = True,
      clearDescription_disabled = True, currentEditor = None, description_value = [],
      descriptionContainer_value = None, dialog_waiting = False, drawCurves = None,
      drawPlaceholder_hidden = False, drawPath = None, drawPathString = [], drawPoints = None,
      drawThickness_value = ''1'', errorBar_hidden = True, extractedSignatureData = None,
      imagePath = None, imagePlaceholder_hidden = False, imageSVG_viewBox = None,
      saveCheckbox_checked = False, saveContainer_disabled = True,
      saveContainer_fullStorage = False, addSignatureToolbarButton = True,
      typeInput_value = [], currentTab = None,
      currentTabAC = None, hasDescriptionChanged = False, uiManager = False,
      panels_selected = None, overlay_active = False, currentPointerId = None,
      strokeListeners = [], pendingL10n = 0, pendingExtract = [], effects = []\<rparr>"

subsection \<open>Committing\<close>

text \<open>
  \<^verbatim>\<open>#add\<close> awaits the codec and the store, and the dialog lives on meanwhile. What
  can happen to it then: an event of the open dialog, a click on the cancel button, or
  the \<^verbatim>\<open>close\<close> event of the dialog. They are delivered one after the other, a
  listener that throws leaving the state it reached.\<close>

datatype action = Ui event | CancelClick | CloseEvent

fun act :: "action \<Rightarrow> sm \<Rightarrow> js_error \<times> sm + sm" where
  "act (Ui e) s = step e s"
| "act CancelClick s = Inr (cancel s)"
| "act CloseEvent s = close s"

fun play :: "action list \<Rightarrow> sm \<Rightarrow> sm" where
  "play [] s = s"
| "play (a # acts) s = play acts (ending (act a s))"

text \<open>
  What the collaborators return during one \<^verbatim>\<open>#add\<close>:
  \<^verbatim>\<open>#currentEditor.getFromText\<close>, \<^verbatim>\<open>#currentEditor.getDrawnSignature\<close>,
  \<^verbatim>\<open>#signatureStorage.create\<close>, and whether \<^verbatim>\<open>SignatureExtractor.processDrawnLines\<close>
  in \<^verbatim>\<open>#addToolbarButton\<close> returns an outline.\<close>

record collaborators =
  co_getFromText :: "payload option"
  co_getDrawnSignature :: "payload option"
  co_create :: "string option"
  co_processDrawnLines :: bool

text \<open>The \<^verbatim>\<open>switch\<close> at the head of \<^verbatim>\<open>#add\<close>.\<close>

definition getOutline :: "collaborators \<Rightarrow> sm \<Rightarrow> js_error \<times> sm + payload option" where
  "getOutline c s =
     (case currentTab s of
        None \<Rightarrow> Inr None
      | Some TypeTab \<Rightarrow>
          (case currentEditor s of None \<Rightarrow> Inl (TypeError, s) | Some ed \<Rightarrow> Inr (co_getFromText c))
      | Some DrawTab \<Rightarrow>
          (case currentEditor s of
             None \<Rightarrow> Inl (TypeError, s)
           | Some ed \<Rightarrow> Inr (co_getDrawnSignature c))
      | Some ImageTab \<Rightarrow> Inr (extractedSignatureData s))"

text \<open>
  \<^verbatim>\<open>#addToolbarButton\<close>: it returns early when no outline comes back; otherwise the
  entry is built and inserted before the toolbar button, which throws if there is none.\<close>

definition addToolbarButton :: "collaborators \<Rightarrow> string \<Rightarrow> string \<Rightarrow> sm \<Rightarrow> js_error \<times> sm + sm" where
  "addToolbarButton c uuid description s =
     (if \<not> co_processDrawnLines c then Inr s
      else if addSignatureToolbarButton s then Inr (emit (ToolbarButton uuid description) s)
      else Inl (TypeError, s))"

text \<open>
  The block \<^verbatim>\<open>if (this.#saveCheckbox.checked)\<close> of \<^verbatim>\<open>#add\<close>; it yields the
  \<^verbatim>\<open>uuid\<close>. Destructuring a \<^verbatim>\<open>data\<close> that is \<^verbatim>\<open>null\<close> or
  \<^verbatim>\<open>undefined\<close> throws. The block awaits twice: \<open>during_compress\<close> is what
  happens to the dialog until \<^verbatim>\<open>compressSignature\<close> settles, \<open>during_create\<close>
  what happens until \<^verbatim>\<open>create\<close> does. The checkbox and the description were read
  before the first \<^verbatim>\<open>await\<close>.\<close>

definition saveSignature ::
  "collaborators \<Rightarrow> payload option \<Rightarrow> action list \<Rightarrow> action list \<Rightarrow> sm \<Rightarrow>
   js_error \<times> sm + (string option \<times> sm)" where
  "saveSignature c data during_compress during_create s =
     (if saveCheckbox_checked s then
        (case data of
           None \<Rightarrow> Inl (TypeError, s)
         | Some p \<Rightarrow>
             let description = description_value s;
                 s1 = play during_compress
                        (emit (CompressSignature (p_newCurves p) (p_areContours p) (p_thickness p)
                                 (p_width p) (p_height p)) s);
                 s2 = play during_create (emit (StoreCreate description) s1);
                 uuid = co_create c
             in (case uuid of
                   None \<Rightarrow> Inr (uuid, emit ConsoleWarn s2)
                 | Some u \<Rightarrow>
                     if truthy_uuid uuid
                     then bind_r (addToolbarButton c u description s2) (\<lambda>s3. Inr (uuid, s3))
                     else Inr (uuid, emit ConsoleWarn s2)))
      else Inr (None, s))"

text \<open>
  \<^verbatim>\<open>#add\<close>. After the save block it reads \<^verbatim>\<open>#currentEditor\<close> and the
  description again, as they are by then. The height is \<^verbatim>\<open>DEFAULT_HEIGHT_IN_PAGE\<close>.\<close>

definition DEFAULT_HEIGHT_IN_PAGE :: nat where
  "DEFAULT_HEIGHT_IN_PAGE = 40"

definition add :: "collaborators \<Rightarrow> action list \<Rightarrow> action list \<Rightarrow> sm \<Rightarrow> js_error \<times> sm + sm" where
  "add c during_compress during_create s =
     bind_r (getOutline c s) (\<lambda>data.
     bind_r (saveSignature c data during_compress during_create s) (\<lambda>(uuid, s1).
       case currentEditor s1 of
         None \<Rightarrow> Inl (TypeError, s1)
       | Some ed \<Rightarrow>
           Inr (finish (emit (AddSignature data DEFAULT_HEIGHT_IN_PAGE (description_value s1) uuid) s1))))"

subsection \<open>The dialog that edits a description\<close>

text \<open>
  \<^verbatim>\<open>EditDescriptionDialog\<close>. \<open>target_description\<close> is the \<^verbatim>\<open>description\<close>
  property of the editor object last passed to \<^verbatim>\<open>open\<close>; \<open>edd_currentEditor\<close> says
  whether \<^verbatim>\<open>#currentEditor\<close> still refers to it. \<open>edd_previousDescription\<close> is
  \<open>None\<close> while the field is \<^verbatim>\<open>undefined\<close>. \<open>edd_signatureSVG\<close> lists the
  \<^verbatim>\<open>d\<close> attributes of the children of the preview.\<close>

record edd =
  edd_currentEditor :: bool
  target_description :: string
  edd_previousDescription :: "string option"
  edd_description_value :: string
  edd_clearDescription_disabled :: bool
  edd_updateButton_disabled :: bool
  edd_signatureSVG_ariaLabel :: "string option"
  edd_signatureSVG :: "string list"
  edd_uiManager :: bool
  edd_overlay_active :: bool
  edd_effects :: "effect list"

text \<open>The \<^verbatim>\<open>input\<close> listener on the description input.\<close>

definition edd_input_listener :: "edd \<Rightarrow> edd" where
  "edd_input_listener s =
     (let v = edd_description_value s
      in s\<lparr>edd_clearDescription_disabled := (v = []),
           edd_updateButton_disabled := (Some v = edd_previousDescription s),
           edd_signatureSVG_ariaLabel := Some v\<rparr>)"

text \<open>The user edits the input to \<open>v\<close>.\<close>

definition edd_input :: "string \<Rightarrow> edd \<Rightarrow> edd" where
  "edd_input v s = edd_input_listener (s\<lparr>edd_description_value := v\<rparr>)"

definition edd_clearDescription_click :: "edd \<Rightarrow> edd" where
  "edd_clearDescription_click s =
     s\<lparr>edd_description_value := [], edd_clearDescription_disabled := True\<rparr>"

text \<open>
  \<^verbatim>\<open>open(editor)\<close>, for an editor whose description is \<open>d\<close> and whose preview has
  the path \<open>preview\<close>.\<close>

definition edd_open :: "string \<Rightarrow> string \<Rightarrow> edd \<Rightarrow> edd" where
  "edd_open d preview s =
     (let s1 = s\<lparr>edd_uiManager := True, edd_currentEditor := True, target_description := d\<rparr>;
          s2 = s1\<lparr>edd_previousDescription := Some d, edd_description_value := d\<rparr>;
          s3 = edd_input_listener s2;
          s4 = s3\<lparr>edd_effects := edd_effects s3 @ [RemoveEditListeners],
                   edd_signatureSVG := edd_signatureSVG s3 @ [preview]\<rparr>
      in s4\<lparr>edd_effects := edd_effects s4 @ [OverlayOpen], edd_overlay_active := True\<rparr>)"

definition edd_finish :: "edd \<Rightarrow> edd" where
  "edd_finish s =
     (if edd_overlay_active s
      then s\<lparr>edd_effects := edd_effects s @ [OverlayClose], edd_overlay_active := False\<rparr>
      else s)"

text \<open>\<^verbatim>\<open>#update\<close>. Writing a property through a \<^verbatim>\<open>null\<close> editor throws.\<close>

definition edd_update :: "edd \<Rightarrow> js_error \<times> edd + edd" where
  "edd_update s =
     (let description = edd_description_value s
      in if edd_previousDescription s = Some description then Inr (edd_finish s)
         else if \<not> edd_currentEditor s then Inl (TypeError, s)
         else Inr (edd_finish (s\<lparr>target_description := description\<rparr>)))"

definition edd_close :: "edd \<Rightarrow> js_error \<times> edd + edd" where
  "edd_close s =
     (let s1 = (if edd_uiManager s then s\<lparr>edd_effects := edd_effects s @ [AddEditListeners]\<rparr> else s);
          s2 = s1\<lparr>edd_uiManager := False, edd_currentEditor := False\<rparr>
      in case edd_signatureSVG s2 of
           [] \<Rightarrow> Inl (TypeError, s2)
         | p # ps \<Rightarrow> Inr (s2\<lparr>edd_signatureSVG := ps\<rparr>))"

text \<open>What the user can do to the open description dialog before pressing update.\<close>

datatype edd_event = EddInput string | EddClearClick

fun edd_step :: "edd_event \<Rightarrow> edd \<Rightarrow> edd" where
  "edd_step (EddInput v) s = edd_input v s"
| "edd_step EddClearClick s = edd_clearDescription_click s"

definition edd_run :: "edd_event list \<Rightarrow> edd \<Rightarrow> edd" where
  "edd_run es s = foldl (\<lambda>t e. edd_step e t) s es"

subsection \<open>Notions used to state the properties\<close>

text \<open>
  The commands of one stroke, as a function of its recorded points: a move to the first,
  a line to the second, and for every further point a curve from the two points
  recorded before it.\<close>

definition curve_to :: "int \<times> int \<Rightarrow> int \<times> int \<Rightarrow> int \<times> int \<Rightarrow> path_cmd" where
  "curve_to a b c =
     C (of_int (fst a + 5 * fst b) / 6) (of_int (snd a + 5 * snd b) / 6)
       (of_int (5 * fst b + fst c) / 6) (of_int (5 * snd b + snd c) / 6)
       (of_int (fst b + fst c) / 2) (of_int (snd b + snd c) / 2)"

fun smooth_cmds :: "int \<times> int \<Rightarrow> int \<times> int \<Rightarrow> (int \<times> int) list \<Rightarrow> path_cmd list" where
  "smooth_cmds a b [] = []"
| "smooth_cmds a b (c # cs) = curve_to a b c # smooth_cmds b c cs"

fun stroke_cmds :: "(int \<times> int) list \<Rightarrow> path_cmd list" where
  "stroke_cmds [] = []"
| "stroke_cmds [p] = [M (fst p) (snd p)]"
| "stroke_cmds (p # q # ps) = M (fst p) (snd p) # L (fst q) (snd q) # smooth_cmds p q ps"

fun is_curve :: "path_cmd \<Rightarrow> bool" where
  "is_curve (C a b c d e f) = True"
| "is_curve (M x y) = False"
| "is_curve (L x y) = False"

definition round_point :: "rat \<times> rat \<Rightarrow> int \<times> int" where
  "round_point off = (Math_round (fst off), Math_round (snd off))"

text \<open>
  A point is on the surface of a stroke whose listener captured the width and height
  \<open>wh\<close>. Of the rounded points of the \<^verbatim>\<open>pointermove\<close> events of a stroke, those
  recorded are the ones on the surface that differ from the point recorded before them;
  \<open>prev\<close> is the point recorded last. \<open>flat\<close> lays points out as
  \<^verbatim>\<open>#drawPoints\<close> holds them.\<close>

definition on_surface :: "rat \<times> rat \<Rightarrow> int \<times> int \<Rightarrow> bool" where
  "on_surface wh p =
     (0 \<le> fst p \<and> 0 \<le> snd p \<and> of_int (fst p) \<le> fst wh \<and> of_int (snd p) \<le> snd wh)"

fun recorded :: "rat \<times> rat \<Rightarrow> int \<times> int \<Rightarrow> (int \<times> int) list \<Rightarrow> (int \<times> int) list" where
  "recorded wh prev [] = []"
| "recorded wh prev (p # ps) =
     (if on_surface wh p \<and> p \<noteq> prev then p # recorded wh p ps else recorded wh prev ps)"

definition flat :: "(int \<times> int) list \<Rightarrow> int list" where
  "flat ps = concat (map (\<lambda>p. [fst p, snd p]) ps)"

text \<open>The points of the stroke begun by the \<^verbatim>\<open>pointerdown\<close> \<open>e\<close> and continued by
  \<^verbatim>\<open>pointermove\<close> events at the offsets \<open>offs\<close>.\<close>

definition stroke_points :: "pointer_down \<Rightarrow> (rat \<times> rat) list \<Rightarrow> (int \<times> int) list" where
  "stroke_points e offs =
     round_point (pd_offsetX e, pd_offsetY e) #
     recorded (pd_rect_width e, pd_rect_height e) (round_point (pd_offsetX e, pd_offsetY e))
       (map round_point offs)"

definition moves :: "(rat \<times> rat) list \<Rightarrow> event list" where
  "moves offs = map (\<lambda>off. PointerMove (fst off) (snd off)) offs"

text \<open>The draw tab between two strokes: its listeners are registered and no pointer is down.\<close>

definition draw_idle :: "sm \<Rightarrow> bool" where
  "draw_idle s =
     (currentTabAC s = Some DrawTab \<and> currentPointerId s = None \<and> strokeListeners s = [] \<and>
      (drawCurves s = None) = (drawPath s = None))"

text \<open>The dialog right after \<^verbatim>\<open>open\<close> on a closed one; it serves to write down concrete runs.\<close>

definition opened_dialog :: sm where
  "opened_dialog = ending (open_dialog False \<lparr>ed_drawId_is_null = True\<rparr> closed_dialog)"

definition down_at :: "rat \<Rightarrow> rat \<Rightarrow> pointer_down" where
  "down_at x y =
     \<lparr>pd_pointerId = 1, pd_offsetX = x, pd_offsetY = y, pd_target_is_placeholder = True,
      pd_rect_width = 100, pd_rect_height = 50\<rparr>"

text \<open>
  A dialog between \<^verbatim>\<open>open\<close> and its closing: the map of descriptions exists with
  an entry for each of the three tabs, a tab is current, its button is the selected one
  and its listeners are the registered ones.\<close>

definition dialog_open :: "sm \<Rightarrow> bool" where
  "dialog_open s =
     ((case tabsToAltText s of
         None \<Rightarrow> False
       | Some m \<Rightarrow> m (Some TypeTab) \<noteq> None \<and> m (Some DrawTab) \<noteq> None \<and> m (Some ImageTab) \<noteq> None) \<and>
      currentTab s \<noteq> None \<and> panels_selected s = currentTab s \<and> currentTabAC s = currentTab s)"

text \<open>\<^verbatim>\<open>#tabsToAltText.get(a)\<close>, when there is a map.\<close>

definition snapshot :: "tab \<Rightarrow> sm \<Rightarrow> string option" where
  "snapshot a s = (case tabsToAltText s of None \<Rightarrow> None | Some m \<Rightarrow> m (Some a))"

text \<open>Groups of fields that most listeners leave alone.\<close>

definition tabs_view ::
  "sm \<Rightarrow> (tab option \<Rightarrow> string option) option \<times> tab option \<times> tab option \<times> tab option" where
  "tabs_view s = (tabsToAltText s, currentTab s, currentTabAC s, panels_selected s)"

definition controls_view :: "sm \<Rightarrow> bool \<times> bool \<times> bool" where
  "controls_view s = (addButton_disabled s, clearButton_disabled s, saveContainer_disabled s)"

definition type_view :: "sm \<Rightarrow> string \<times> bool" where
  "type_view s = (typeInput_value s, hasDescriptionChanged s)"

text \<open>
  What \<^verbatim>\<open>#initTypeTab\<close>, \<^verbatim>\<open>#initDrawTab\<close> and \<^verbatim>\<open>#initImageTab\<close> pass to
  \<^verbatim>\<open>#disableButtons\<close>: the typed text, the path of the drawing, the path of the
  traced image, of the tab that is current.\<close>

definition capturable :: "sm \<Rightarrow> bool" where
  "capturable s =
     (case currentTab s of
        None \<Rightarrow> False
      | Some TypeTab \<Rightarrow> typeInput_value s \<noteq> []
      | Some DrawTab \<Rightarrow> drawPath s \<noteq> None
      | Some ImageTab \<Rightarrow> imagePath s \<noteq> None)"

text \<open>The add button, the clear button and the save container are all enabled, or all disabled.\<close>

definition controls_are :: "bool \<Rightarrow> sm \<Rightarrow> bool" where
  "controls_are enabled s =
     (addButton_disabled s = (\<not> enabled) \<and> clearButton_disabled s = (\<not> enabled) \<and>
      saveContainer_disabled s = (\<not> enabled))"

text \<open>The opened dialog after "abc" is typed into the type tab.\<close>

definition typed_abc :: sm where
  "typed_abc = ending (run [TypeInput ''abc''] opened_dialog)"

text \<open>The capture state of the draw tab and of the image tab.\<close>

definition draw_capture ::
  "sm \<Rightarrow> draw_curves option \<times> int list option \<times> path_cmd list \<times> draw_path option \<times> bool \<times> string" where
  "draw_capture s =
     (drawCurves s, drawPoints s, drawPathString s, drawPath s, drawPlaceholder_hidden s,
      drawThickness_value s)"

definition image_capture :: "sm \<Rightarrow> string option \<times> bool \<times> string option \<times> payload option" where
  "image_capture s =
     (imagePath s, imagePlaceholder_hidden s, imageSVG_viewBox s, extractedSignatureData s)"

text \<open>The opened dialog with "abc" typed, one dot drawn, and the type tab selected again.\<close>

definition typed_and_drawn :: sm where
  "typed_and_drawn =
     ending (run [TabClick DrawTab, PointerDown (down_at 3 4), PointerUp 1, TabClick TypeTab]
               typed_abc)"

text \<open>
  The continuation of an image extraction is timely when the image tab is still the
  current tab as it runs; nothing in \<^verbatim>\<open>#extractSignature\<close> checks this.\<close>

fun timely :: "event \<Rightarrow> sm \<Rightarrow> bool" where
  "timely (ExtractResolved name dec traced) s = (currentTab s = Some ImageTab)"
| "timely e s = True"

fun timely_run :: "event list \<Rightarrow> sm \<Rightarrow> bool" where
  "timely_run [] s = True"
| "timely_run (e # es) s = (timely e s \<and> timely_run es (ending (step e s)))"

text \<open>
  The condition as the specification words it. A stroke is completed by its
  \<^verbatim>\<open>pointerup\<close>, which removes its listeners: of the strokes in \<^verbatim>\<open>#drawCurves\<close>
  all but the one whose listeners are live are completed.\<close>

definition completed_strokes :: "sm \<Rightarrow> nat" where
  "completed_strokes s =
     (case drawCurves s of
        None \<Rightarrow> 0
      | Some dc \<Rightarrow> length (dc_curves dc) - (if strokeListeners s = [] then 0 else 1))"

definition claimed_capturable :: "sm \<Rightarrow> bool" where
  "claimed_capturable s =
     (case currentTab s of
        None \<Rightarrow> False
      | Some TypeTab \<Rightarrow> typeInput_value s \<noteq> []
      | Some DrawTab \<Rightarrow> 0 < completed_strokes s
      | Some ImageTab \<Rightarrow>
          (case extractedSignatureData s of None \<Rightarrow> False | Some p \<Rightarrow> p_outline p \<noteq> None))"

text \<open>A supported file, a tracing with an outline and a tracing without one.\<close>

definition png_file :: image_file where
  "png_file = \<lparr>f_name = ''a.png'', f_type_supported = True\<rparr>"

definition traced_outline :: payload where
  "traced_outline =
     \<lparr>p_outline = Some \<lparr>ol_viewBox = ''0 0 1 1'', ol_svgPath = ''M0 0L1 1''\<rparr>,
      p_newCurves = [[0, 0, 1, 1]], p_areContours = True, p_thickness = 0, p_width = 1,
      p_height = 1\<rparr>"

definition traced_nothing :: payload where
  "traced_nothing =
     \<lparr>p_outline = None, p_newCurves = [], p_areContours = True, p_thickness = 0, p_width = 1,
      p_height = 1\<rparr>"

text \<open>The states the dialog goes through as the events are delivered.\<close>

fun trace :: "event list \<Rightarrow> sm \<Rightarrow> sm list" where
  "trace [] s = []"
| "trace (e # es) s = ending (step e s) # trace es (ending (step e s))"

text \<open>
  The current tab, whether the three controls are enabled, and the condition as the
  specification words it.\<close>

definition controls_state :: "sm \<Rightarrow> tab option \<times> bool \<times> nat \<times> bool" where
  "controls_state s =
     (currentTab s, controls_are True s, completed_strokes s, claimed_capturable s)"

text \<open>The opened dialog with "abc" typed and the description then edited to "Hello".\<close>

definition edited_hello :: sm where
  "edited_hello = ending (run [DescriptionInput ''Hello''] typed_abc)"

text \<open>What the type tab shows, with the dirty flag.\<close>

definition shown :: "sm \<Rightarrow> tab option \<times> string \<times> string \<times> bool" where
  "shown s = (currentTab s, typeInput_value s, description_value s, hasDescriptionChanged s)"

text \<open>The calls on collaborators made between two states.\<close>

definition new_effects :: "sm \<Rightarrow> sm \<Rightarrow> effect list" where
  "new_effects s s' = drop (length (effects s)) (effects s')"

fun is_addSignature :: "effect \<Rightarrow> bool" where
  "is_addSignature (AddSignature data h d u) = True"
| "is_addSignature e = False"

text \<open>What the image tab shows and holds.\<close>

definition image_state :: "sm \<Rightarrow> string option \<times> bool \<times> payload option \<times> bool \<times> bool" where
  "image_state s =
     (imagePath s, controls_are True s, extractedSignatureData s, dialog_waiting s,
      errorBar_hidden s)"

text \<open>The opened dialog on the image tab, waiting for the file "a.png" to be decoded.\<close>

definition awaiting_image :: sm where
  "awaiting_image =
     ending (run [TabClick ImageTab, PickerClick, PickerChange (Some png_file)] opened_dialog)"

text \<open>
  Collaborators for a commit on the type tab: the host editor returns an outline for the
  typed text, and the store rejects the record.\<close>

definition rejecting_store :: collaborators where
  "rejecting_store =
     \<lparr>co_getFromText = Some traced_outline, co_getDrawnSignature = None, co_create = None,
      co_processDrawnLines = True\<rparr>"

text \<open>
  The dialog of a viewer that has no toolbar button for signatures (the case for which
  \<^verbatim>\<open>loadSignatures\<close> tests), opened, with "abc" typed and the save checkbox checked.\<close>

definition without_toolbar_button :: sm where
  "without_toolbar_button =
     ending (run [TypeInput ''abc'']
       (ending (open_dialog False \<lparr>ed_drawId_is_null = True\<rparr>
          (closed_dialog\<lparr>addSignatureToolbarButton := False\<rparr>))))"

text \<open>Collaborators for a commit on the type tab whose store accepts the record.\<close>

definition accepting_store :: collaborators where
  "accepting_store =
     \<lparr>co_getFromText = Some traced_outline, co_getDrawnSignature = None,
      co_create = Some ''uuid-1'', co_processDrawnLines = True\<rparr>"

text \<open>
  What a commit has done: the calls it made, and whether the dialog is still the active
  overlay.\<close>

definition commit_state :: "sm \<Rightarrow> sm \<Rightarrow> effect list \<times> bool" where
  "commit_state s s' = (new_effects s s', overlay_active s')"

text \<open>The calls recorded in \<open>s'\<close> continue those recorded in \<open>s\<close>.\<close>

definition extends :: "sm \<Rightarrow> sm \<Rightarrow> bool" where
  "extends s s' = (take (length (effects s)) (effects s') = effects s)"

text \<open>The fields of a session that no listener of the open dialog assigns.\<close>

definition session_view :: "sm \<Rightarrow> editor option \<times> bool \<times> bool \<times> bool" where
  "session_view s =
     (currentEditor s, uiManager s, saveContainer_fullStorage s, addSignatureToolbarButton s)"



section \<open>Properties\<close>

subsection \<open>Evaluation of concrete runs\<close>

lemmas eval_defs = closed_dialog_def open_dialog_def tabCallback_def initTab_def bind_r_def
  snapshotDescription_def setCurrentTab_def restoreDescription_def initCurrentTab_def
  initTypeTab_def initDrawTab_def initImageTab_def disableButtons_def emit_def value_of_get_def
  resetCommon_def clearButton_click_def ending_def opened_dialog_def Let_def

lemmas listener_defs = typeInput_input_listener_def typeTab_description_listener_def
  description_input_listener_def clearDescription_click_def drawCallback_def firstStroke_def
  beginStroke_def pointermove_listener_def pointerup_listener_def push_point_def move_cmd_def
  at_neg_def slice_neg4_def l10n_then_def down_at_def

lemmas image_defs = imagePicker_click_def imagePicker_change_def imagePicker_cancel_def
  imagePlaceholder_drop_def extractSignature_begin_def extractSignature_resume_def
  showImage_def showError_def png_file_def traced_outline_def

lemmas commit_defs = add_def saveSignature_def getOutline_def addToolbarButton_def finish_def
  cancel_def close_def new_effects_def commit_state_def DEFAULT_HEIGHT_IN_PAGE_def
  truthy_uuid_def rejecting_store_def accepting_store_def traced_outline_def

lemma Math_round_of_int: "Math_round (of_int n) = n"
  unfolding Math_round_def by (rule floor_unique) simp_all

lemma Math_round_numeral [simp]: "Math_round (numeral k) = numeral k"
  using Math_round_of_int [of "numeral k"] by simp

lemma Math_round_0 [simp]: "Math_round 0 = 0"
  using Math_round_of_int [of 0] by simp

lemma Math_round_1 [simp]: "Math_round 1 = 1"
  using Math_round_of_int [of 1] by simp

lemma round_point_pair: "round_point (ox, oy) = (Math_round ox, Math_round oy)"
  by (simp add: round_point_def)

lemma run_Cons: "step e s = Inr s1 \<Longrightarrow> run (e # es) s = run es s1"
  by simp

lemma run_ConsD:
  assumes "run (e # es) s = Inr s'"
  obtains s1 where "step e s = Inr s1" "run es s1 = Inr s'"
  using assms by (auto split: sum.splits prod.splits)

lemma run_append: "run es s = Inr s1 \<Longrightarrow> run (es @ es') s = run es' s1"
proof (induction es arbitrary: s)
  case Nil
  then show ?case by simp
next
  case (Cons e es)
  from Cons.prems obtain s0 where "step e s = Inr s0" "run es s0 = Inr s1" by (rule run_ConsD)
  with Cons.IH [of s0] show ?case by simp
qed

lemma run_single: "step e s = Inr s1 \<Longrightarrow> run [e] s = Inr s1"
  by simp

lemma run_one: "run [e] s = step e s"
proof (cases "step e s")
  case (Inl r)
  obtain err s1 where "r = (err, s1)" by (cases r)
  with Inl show ?thesis by (simp add: ending_def del: step.simps)
next
  case (Inr s1)
  then show ?thesis by (simp del: step.simps)
qed

subsection \<open>The path of a stroke\<close>

lemma flat_simps: "flat [] = []" "flat (p # ps) = fst p # snd p # flat ps"
  "flat (ps @ qs) = flat ps @ flat qs"
  by (simp_all add: flat_def)

lemma pointerdown_starts:
  assumes "draw_idle s"
  shows "\<exists>t dp. step (PointerDown e) s = Inr t \<and>
           strokeListeners t = [(pd_rect_width e, pd_rect_height e)] \<and>
           drawPoints t = Some [Math_round (pd_offsetX e), Math_round (pd_offsetY e)] \<and>
           drawPath t = Some dp \<and>
           drawPathString t =
             drawPathString s @ [M (Math_round (pd_offsetX e)) (Math_round (pd_offsetY e))]"
  using assms
  by (auto simp add: draw_idle_def drawCallback_def firstStroke_def beginStroke_def
      disableButtons_def Let_def split: option.splits)

text \<open>A \<^verbatim>\<open>pointermove\<close> off the surface, or at the point recorded last, changes nothing.\<close>

lemma move_dropped:
  assumes "strokeListeners t = [wh]" "drawPoints t = Some (flat (ps @ [q]))"
    "\<not> on_surface wh (round_point (ox, oy)) \<or> round_point (ox, oy) = q"
  shows "step (PointerMove ox oy) t = Inr t"
  using assms
  by (auto simp add: pointermove_listener_def Let_def at_neg_def round_point_def on_surface_def
      not_le nth_append flat_simps)

lemma move_line:
  assumes "strokeListeners t = [wh]" "drawPoints t = Some (flat [q])" "drawPath t = Some dp"
    "on_surface wh (round_point (ox, oy))" "round_point (ox, oy) \<noteq> q"
  shows "\<exists>t' dp'. step (PointerMove ox oy) t = Inr t' \<and> strokeListeners t' = [wh] \<and>
           drawPoints t' = Some (flat [q, round_point (ox, oy)]) \<and> drawPath t' = Some dp' \<and>
           drawPathString t' = drawPathString t @ [L (Math_round ox) (Math_round oy)]"
  using assms
  by (cases q) (auto simp add: pointermove_listener_def Let_def push_point_def move_cmd_def
      at_neg_def round_point_def on_surface_def not_less flat_simps)

lemma move_curve:
  assumes "strokeListeners t = [wh]" "drawPoints t = Some (flat (ps @ [p, q]))"
    "drawPath t = Some dp" "on_surface wh (round_point (ox, oy))" "round_point (ox, oy) \<noteq> q"
  shows "\<exists>t' dp'. step (PointerMove ox oy) t = Inr t' \<and> strokeListeners t' = [wh] \<and>
           drawPoints t' = Some (flat (ps @ [p, q, round_point (ox, oy)])) \<and>
           drawPath t' = Some dp' \<and>
           drawPathString t' = drawPathString t @ [curve_to p q (round_point (ox, oy))]"
  using assms
  by (cases p; cases q) (auto simp add: pointermove_listener_def Let_def push_point_def move_cmd_def
      at_neg_def slice_neg4_def round_point_def on_surface_def curve_to_def nth_append not_less
      flat_simps)


lemma recorded_snoc:
  "recorded wh prev (ps @ [r]) =
     recorded wh prev ps @
     (if on_surface wh r \<and> r \<noteq> last (prev # recorded wh prev ps) then [r] else [])"
proof (induction ps arbitrary: prev)
  case Nil
  then show ?case by simp
next
  case (Cons p ps)
  show ?case
  proof (cases "on_surface wh p \<and> p \<noteq> prev")
    case True
    have l: "last (prev # p # recorded wh p ps) = last (p # recorded wh p ps)" by simp
    from True have "recorded wh prev ((p # ps) @ [r]) = p # recorded wh p (ps @ [r])" by simp
    also have "\<dots> = p # (recorded wh p ps @
        (if on_surface wh r \<and> r \<noteq> last (p # recorded wh p ps) then [r] else []))"
      by (simp only: Cons.IH)
    also have "\<dots> = (p # recorded wh p ps) @
        (if on_surface wh r \<and> r \<noteq> last (prev # p # recorded wh p ps) then [r] else [])"
      by (simp only: l append_Cons)
    also from True have "p # recorded wh p ps = recorded wh prev (p # ps)" by simp
    finally show ?thesis .
  next
    case False
    then have "recorded wh prev ((p # ps) @ [r]) = recorded wh prev (ps @ [r])"
      and "recorded wh prev (p # ps) = recorded wh prev ps" by auto
    then show ?thesis by (simp only: Cons.IH)
  qed
qed

lemma smooth_cmds_snoc:
  "smooth_cmds a b (cs @ [p, q, r]) = smooth_cmds a b (cs @ [p, q]) @ [curve_to p q r]"
  by (induction cs arbitrary: a b) simp_all

lemma stroke_cmds_snoc:
  "stroke_cmds (ps @ [p, q, r]) = stroke_cmds (ps @ [p, q]) @ [curve_to p q r]"
proof (cases ps)
  case Nil
  then show ?thesis by simp
next
  case (Cons a qs)
  then show ?thesis
    using smooth_cmds_snoc [of a "hd qs" "tl qs" p q r]
    by (cases qs) simp_all
qed

lemma one_or_more:
  obtains q where "p0 # ps = [q]" | qs p q where "p0 # ps = qs @ [p, q]"
proof (cases ps rule: rev_cases)
  case Nil
  then show ?thesis using that(1) by simp
next
  case (snoc ys y)
  show ?thesis
  proof (cases ys rule: rev_cases)
    case Nil
    with snoc have "p0 # ps = [] @ [p0, y]" by simp
    then show ?thesis by (rule that(2))
  next
    case (snoc zs z)
    with \<open>ps = ys @ [y]\<close> have "p0 # ps = (p0 # zs) @ [z, y]" by simp
    then show ?thesis by (rule that(2))
  qed
qed

lemma stroke_recorded:
  assumes idle: "draw_idle s"
  shows "\<exists>t dp. run (PointerDown e # moves offs) s = Inr t \<and>
           strokeListeners t = [(pd_rect_width e, pd_rect_height e)] \<and> drawPath t = Some dp \<and>
           drawPoints t =
             Some (flat (round_point (pd_offsetX e, pd_offsetY e) #
                         recorded (pd_rect_width e, pd_rect_height e)
                           (round_point (pd_offsetX e, pd_offsetY e)) (map round_point offs))) \<and>
           drawPathString t =
             drawPathString s @
             stroke_cmds (round_point (pd_offsetX e, pd_offsetY e) #
                          recorded (pd_rect_width e, pd_rect_height e)
                            (round_point (pd_offsetX e, pd_offsetY e)) (map round_point offs))"
proof (induction offs rule: rev_induct)
  case Nil
  from pointerdown_starts [OF idle, of e]
  obtain t dp where "step (PointerDown e) s = Inr t"
    "strokeListeners t = [(pd_rect_width e, pd_rect_height e)]"
    "drawPoints t = Some [Math_round (pd_offsetX e), Math_round (pd_offsetY e)]"
    "drawPath t = Some dp"
    "drawPathString t =
       drawPathString s @ [M (Math_round (pd_offsetX e)) (Math_round (pd_offsetY e))]"
    by blast
  then show ?case
    by (simp add: moves_def bind_r_def round_point_pair flat_simps del: step.simps)
next
  case (snoc off offs)
  let ?wh = "(pd_rect_width e, pd_rect_height e)"
  let ?p0 = "round_point (pd_offsetX e, pd_offsetY e)"
  let ?R = "recorded ?wh ?p0 (map round_point offs)"
  obtain ox oy where off: "off = (ox, oy)" by (cases off)
  let ?r = "round_point (ox, oy)"
  from snoc.IH obtain t dp where t: "run (PointerDown e # moves offs) s = Inr t"
    "strokeListeners t = [?wh]" "drawPath t = Some dp"
    "drawPoints t = Some (flat (?p0 # ?R))"
    "drawPathString t = drawPathString s @ stroke_cmds (?p0 # ?R)"
    by blast
  have "PointerDown e # moves (offs @ [off]) = (PointerDown e # moves offs) @ [PointerMove ox oy]"
    by (simp add: moves_def off)
  then have "run (PointerDown e # moves (offs @ [off])) s = run [PointerMove ox oy] t"
    by (simp only: run_append [OF t(1)])
  also have "\<dots> = step (PointerMove ox oy) t"
    by (rule run_one)
  finally have split: "run (PointerDown e # moves (offs @ [off])) s = step (PointerMove ox oy) t" .
  have rec: "recorded ?wh ?p0 (map round_point (offs @ [off])) =
      ?R @ (if on_surface ?wh ?r \<and> ?r \<noteq> last (?p0 # ?R) then [?r] else [])"
    using recorded_snoc [of ?wh ?p0 "map round_point offs" ?r] by (simp add: off)
  show ?case
  proof (cases "on_surface ?wh ?r \<and> ?r \<noteq> last (?p0 # ?R)")
    case False
    obtain qs q where q: "?p0 # ?R = qs @ [q]"
      by (metis append_butlast_last_id list.distinct(1))
    with False have "\<not> on_surface ?wh ?r \<or> ?r = q" by auto
    from t(4) have "drawPoints t = Some (flat (qs @ [q]))" unfolding q .
    from move_dropped [OF t(2) this \<open>\<not> on_surface ?wh ?r \<or> ?r = q\<close>]
    have "step (PointerMove ox oy) t = Inr t" .
    moreover from rec False
    have "recorded ?wh ?p0 (map round_point (offs @ [off])) = ?R" by (simp del: last.simps)
    ultimately show ?thesis using split t by (simp del: step.simps)
  next
    case True
    then have on: "on_surface ?wh ?r" and ne: "?r \<noteq> last (?p0 # ?R)" by simp_all
    show ?thesis
    proof (cases rule: one_or_more [of ?p0 ?R])
      case (1 q)
      with ne have neq: "?r \<noteq> q" by simp
      from t(4) have pts: "drawPoints t = Some (flat [q])" unfolding 1 .
      from move_line [OF t(2) pts t(3) on neq]
      obtain t' dp' where t': "step (PointerMove ox oy) t = Inr t'" "strokeListeners t' = [?wh]"
        "drawPoints t' = Some (flat [q, ?r])" "drawPath t' = Some dp'"
        "drawPathString t' = drawPathString t @ [L (Math_round ox) (Math_round oy)]"
        by blast
      from 1 have "?p0 = q \<and> ?R = []" by blast
      then have R: "?R = []" and q: "q = ?p0" by blast+
      from rec True R have rec': "recorded ?wh ?p0 (map round_point (offs @ [off])) = [?r]"
        by (simp del: last.simps)
      from t(5) have pt: "drawPathString t = drawPathString s @ stroke_cmds [?p0]" unfolding R .
      have sc: "stroke_cmds [?p0, ?r] = stroke_cmds [?p0] @ [L (Math_round ox) (Math_round oy)]"
        by (simp add: round_point_pair)
      from t'(3) have pts': "drawPoints t' = Some (flat [?p0, ?r])" unfolding q .
      from t'(1,2,4,5) pts' pt sc show ?thesis
        unfolding rec' split by simp
    next
      case (2 qs p q)
      with ne have neq: "?r \<noteq> q" by simp
      from t(4) have pts: "drawPoints t = Some (flat (qs @ [p, q]))" unfolding 2 .
      from move_curve [OF t(2) pts t(3) on neq]
      obtain t' dp' where t': "step (PointerMove ox oy) t = Inr t'" "strokeListeners t' = [?wh]"
        "drawPoints t' = Some (flat (qs @ [p, q, ?r]))" "drawPath t' = Some dp'"
        "drawPathString t' = drawPathString t @ [curve_to p q ?r]"
        by blast
      from rec True have "?p0 # recorded ?wh ?p0 (map round_point (offs @ [off])) = (?p0 # ?R) @ [?r]"
        by (simp del: last.simps)
      also from 2 have "\<dots> = qs @ [p, q, ?r]" by simp
      finally have rec': "?p0 # recorded ?wh ?p0 (map round_point (offs @ [off])) = qs @ [p, q, ?r]" .
      from split t' t(5) 2 show ?thesis
        unfolding rec' by (simp add: stroke_cmds_snoc)
    qed
  qed
qed


lemma smooth_cmds_has_curve: "ps \<noteq> [] \<Longrightarrow> \<exists>c \<in> set (smooth_cmds a b ps). is_curve c"
  by (cases ps) (simp_all add: curve_to_def)

lemma stroke_cmds_has_curve:
  assumes "3 \<le> length ps"
  shows "\<exists>c \<in> set (stroke_cmds ps). is_curve c"
proof -
  from assms obtain p q r rs where "ps = p # q # r # rs"
    by (cases ps; cases "tl ps"; cases "tl (tl ps)") auto
  with smooth_cmds_has_curve [of "r # rs" p q] show ?thesis by simp
qed

text \<open>
  C2, as the code has it. A stroke begun on the idle draw tab by a \<^verbatim>\<open>pointerdown\<close>
  and continued by any \<^verbatim>\<open>pointermove\<close> events records its first point and, of the
  later ones, those on the surface that differ from the point recorded before; the
  other events change nothing. The stroke appends to the path string exactly
  \<open>stroke_cmds\<close> of the recorded points: the first point emits a move (M), the second a
  line (L), and every point from the third onward a cubic curve (C) whose control points
  are \<open>(p + 5 q) / 6\<close> and \<open>(5 q + r) / 6\<close> and whose end point is \<open>(q + r) / 2\<close>,
  for the last two recorded points \<open>p\<close>, \<open>q\<close> and the incoming point \<open>r\<close>. Hence a
  stroke of three or more points contains a curve command.\<close>

theorem stroke_path_commands:
  assumes "draw_idle s"
  shows "\<exists>t. run (PointerDown e # moves offs) s = Inr t \<and>
           drawPoints t = Some (flat (stroke_points e offs)) \<and>
           drawPathString t = drawPathString s @ stroke_cmds (stroke_points e offs) \<and>
           (3 \<le> length (stroke_points e offs) \<longrightarrow>
              (\<exists>c \<in> set (stroke_cmds (stroke_points e offs)). is_curve c))"
  using stroke_recorded [OF assms, of e offs] stroke_cmds_has_curve [of "stroke_points e offs"]
  unfolding stroke_points_def by blast

theorem stroke_path_commands_witness:
  "draw_idle (ending (run [TabClick DrawTab] opened_dialog)) \<and>
   stroke_points (down_at 0 0) [(6, 0), (6, 0), (200, 3), (12, 6), (12, -1)] =
     [(0, 0), (6, 0), (12, 6)] \<and>
   (\<exists>t. run [PointerDown (down_at 0 0), PointerMove 6 0, PointerMove 6 0, PointerMove 200 3,
              PointerMove 12 6, PointerMove 12 (-1)]
           (ending (run [TabClick DrawTab] opened_dialog)) = Inr t \<and>
        drawPoints t = Some [0, 0, 6, 0, 12, 6] \<and>
        drawPathString t = [M 0 0, L 6 0, C 5 0 7 1 9 3])"
proof -
  have idle: "draw_idle (ending (run [TabClick DrawTab] opened_dialog))"
    by (simp add: draw_idle_def eval_defs)
  have path: "drawPathString (ending (run [TabClick DrawTab] opened_dialog)) = []"
    by (simp add: eval_defs)
  have pts: "stroke_points (down_at 0 0) [(6, 0), (6, 0), (200, 3), (12, 6), (12, -1)] =
      [(0, 0), (6, 0), (12, 6)]"
    by (simp add: stroke_points_def down_at_def round_point_pair on_surface_def
        Math_round_of_int [of "- 1", simplified])
  from stroke_path_commands [OF idle, of "down_at 0 0" "[(6, 0), (6, 0), (200, 3), (12, 6), (12, -1)]"]
    path idle pts
  show ?thesis
    by (simp add: moves_def flat_simps curve_to_def)
qed

text \<open>
  C2 with a line for the third point, as the specification has it, does not hold: the
  third point of a stroke already emits a curve. On the draw tab of the opened dialog the
  stroke through \<open>(0, 0)\<close>, \<open>(6, 0)\<close>, \<open>(12, 6)\<close> builds the path string
  \<^verbatim>\<open>M 0 0\<close>, \<^verbatim>\<open>L6 0\<close>, \<^verbatim>\<open>C5 0 7 1 9 3\<close>.\<close>

theorem third_point_emits_curve:
  "map drawPathString
     (trace [PointerDown (down_at 0 0), PointerMove 6 0, PointerMove 12 6]
        (ending (run [TabClick DrawTab] opened_dialog))) =
     [[M 0 0], [M 0 0, L 6 0], [M 0 0, L 6 0, C 5 0 7 1 9 3]]"
  by (simp add: eval_defs listener_defs)

subsection \<open>The dialog that edits a description\<close>

lemma edd_step_frame:
  "edd_previousDescription (edd_step e s) = edd_previousDescription s \<and>
   edd_currentEditor (edd_step e s) = edd_currentEditor s \<and>
   edd_overlay_active (edd_step e s) = edd_overlay_active s \<and>
   target_description (edd_step e s) = target_description s \<and>
   edd_effects (edd_step e s) = edd_effects s"
  by (cases e)
    (simp_all add: edd_input_def edd_input_listener_def edd_clearDescription_click_def Let_def)

lemma edd_run_frame:
  "edd_previousDescription (edd_run es s) = edd_previousDescription s \<and>
   edd_currentEditor (edd_run es s) = edd_currentEditor s \<and>
   edd_overlay_active (edd_run es s) = edd_overlay_active s \<and>
   target_description (edd_run es s) = target_description s \<and>
   edd_effects (edd_run es s) = edd_effects s"
  unfolding edd_run_def
  by (induction es arbitrary: s) (simp_all add: edd_step_frame)

lemma edd_open_fields:
  "edd_previousDescription (edd_open d p s) = Some d \<and>
   edd_currentEditor (edd_open d p s) \<and>
   edd_overlay_active (edd_open d p s) \<and>
   target_description (edd_open d p s) = d \<and>
   edd_description_value (edd_open d p s) = d \<and>
   edd_updateButton_disabled (edd_open d p s)"
  by (simp add: edd_open_def edd_input_listener_def Let_def)

text \<open>
  C9. Let the description dialog be opened on an editor whose description is \<open>d\<close>, and
  let the user edit the text in any way. Then \<^verbatim>\<open>#update\<close> never throws; when the text
  equals \<open>d\<close>, the snapshot taken by \<^verbatim>\<open>open\<close>, it only closes the dialog and the
  editor's description stays \<open>d\<close>; otherwise it writes the text onto the editor's
  description and then closes the dialog.\<close>

theorem update_writes_only_a_changed_description:
  "edd_update (edd_run es (edd_open d p s0)) =
     (let s = edd_run es (edd_open d p s0)
      in if edd_description_value s = d
         then Inr (s\<lparr>edd_effects := edd_effects s @ [OverlayClose], edd_overlay_active := False\<rparr>)
         else Inr (s\<lparr>target_description := edd_description_value s,
                     edd_effects := edd_effects s @ [OverlayClose],
                     edd_overlay_active := False\<rparr>))
   \<and> target_description (edd_run es (edd_open d p s0)) = d"
  using edd_run_frame [of es "edd_open d p s0"] edd_open_fields [of d p s0]
  by (auto simp add: edd_update_def edd_finish_def Let_def)

subsection \<open>What the listeners leave alone\<close>

lemma pointermove_listener_frame:
  "pointermove_listener wh off s = Inr s' \<Longrightarrow>
   tabs_view s' = tabs_view s \<and> controls_view s' = controls_view s \<and>
   type_view s' = type_view s \<and> description_value s' = description_value s \<and>
   imagePath s' = imagePath s \<and> (drawPath s' = None) = (drawPath s = None)"
  by (clarsimp simp add: pointermove_listener_def push_point_def Let_def tabs_view_def controls_view_def type_view_def
      split: option.splits if_splits)

lemma dispatch_pointermove_frame:
  "dispatch_pointermove off ls s = Inr s' \<Longrightarrow>
   tabs_view s' = tabs_view s \<and> controls_view s' = controls_view s \<and>
   type_view s' = type_view s \<and> description_value s' = description_value s \<and>
   imagePath s' = imagePath s \<and> (drawPath s' = None) = (drawPath s = None)"
proof (induction ls arbitrary: s)
  case Nil
  then show ?case by simp
next
  case (Cons wh ls)
  from Cons.prems obtain s1 where s1: "pointermove_listener wh off s = Inr s1"
    and rest: "dispatch_pointermove off ls s1 = Inr s'"
    by (auto split: sum.splits prod.splits)
  from pointermove_listener_frame [OF s1] Cons.IH [OF rest] show ?case by simp
qed

lemma pointerup_listener_frame:
  "pointerup_listener pId s = Inr (gone, s') \<Longrightarrow>
   tabs_view s' = tabs_view s \<and> controls_view s' = controls_view s \<and>
   type_view s' = type_view s \<and> description_value s' = description_value s \<and>
   imagePath s' = imagePath s \<and> (drawPath s' = None) = (drawPath s = None)"
  by (clarsimp simp add: pointerup_listener_def Let_def tabs_view_def controls_view_def type_view_def
      split: option.splits if_splits)

lemma dispatch_pointerup_frame:
  "dispatch_pointerup pId ls s = Inr (rest, s') \<Longrightarrow>
   tabs_view s' = tabs_view s \<and> controls_view s' = controls_view s \<and>
   type_view s' = type_view s \<and> description_value s' = description_value s \<and>
   imagePath s' = imagePath s \<and> (drawPath s' = None) = (drawPath s = None)"
proof (induction ls arbitrary: s rest)
  case Nil
  then show ?case by simp
next
  case (Cons wh ls)
  from Cons.prems obtain gone s1 rest1 where s1: "pointerup_listener pId s = Inr (gone, s1)"
    and r: "dispatch_pointerup pId ls s1 = Inr (rest1, s')"
    by (simp add: bind_r_def split: sum.splits prod.splits)
  from pointerup_listener_frame [OF s1] Cons.IH [OF r] show ?case by simp
qed

lemma drawCallback_frame:
  "drawCallback e s = Inr s' \<Longrightarrow>
   tabs_view s' = tabs_view s \<and> type_view s' = type_view s \<and>
   description_value s' = description_value s \<and> imagePath s' = imagePath s"
  by (clarsimp simp add: drawCallback_def firstStroke_def beginStroke_def disableButtons_def Let_def
      tabs_view_def type_view_def split: option.splits if_splits)

lemma drawThickness_frame:
  "drawThickness_input_listener s = Inr s' \<Longrightarrow>
   tabs_view s' = tabs_view s \<and> controls_view s' = controls_view s \<and>
   type_view s' = type_view s \<and> description_value s' = description_value s \<and>
   imagePath s' = imagePath s \<and> (drawPath s' = None) = (drawPath s = None)"
  by (clarsimp simp add: drawThickness_input_listener_def Let_def tabs_view_def controls_view_def
      type_view_def split: option.splits)

lemma extractSignature_resume_frame:
  "extractSignature_resume name dec traced s = Inr s' \<Longrightarrow>
   tabs_view s' = tabs_view s \<and> type_view s' = type_view s \<and> drawPath s' = drawPath s"
  by (clarsimp simp add: extractSignature_resume_def showError_def showImage_def emit_def
      disableButtons_def Let_def tabs_view_def type_view_def
      split: decode_result.splits option.splits if_splits)

lemma image_listeners_frame:
  "tabs_view (imagePicker_click s) = tabs_view s \<and>
   controls_view (imagePicker_click s) = controls_view s \<and>
   type_view (imagePicker_click s) = type_view s \<and>
   description_value (imagePicker_click s) = description_value s \<and>
   imagePath (imagePicker_click s) = imagePath s \<and> drawPath (imagePicker_click s) = drawPath s"
  "tabs_view (imagePicker_change fo s) = tabs_view s \<and>
   controls_view (imagePicker_change fo s) = controls_view s \<and>
   type_view (imagePicker_change fo s) = type_view s \<and>
   description_value (imagePicker_change fo s) = description_value s \<and>
   imagePath (imagePicker_change fo s) = imagePath s \<and>
   drawPath (imagePicker_change fo s) = drawPath s"
  "tabs_view (imagePicker_cancel s) = tabs_view s \<and>
   controls_view (imagePicker_cancel s) = controls_view s \<and>
   type_view (imagePicker_cancel s) = type_view s \<and>
   description_value (imagePicker_cancel s) = description_value s \<and>
   imagePath (imagePicker_cancel s) = imagePath s \<and> drawPath (imagePicker_cancel s) = drawPath s"
  "tabs_view (imagePlaceholder_drop files s) = tabs_view s \<and>
   controls_view (imagePlaceholder_drop files s) = controls_view s \<and>
   type_view (imagePlaceholder_drop files s) = type_view s \<and>
   description_value (imagePlaceholder_drop files s) = description_value s \<and>
   imagePath (imagePlaceholder_drop files s) = imagePath s \<and>
   drawPath (imagePlaceholder_drop files s) = drawPath s"
  by (simp_all add: imagePicker_click_def imagePicker_change_def imagePicker_cancel_def
      imagePlaceholder_drop_def extractSignature_begin_def showError_def emit_def
      tabs_view_def controls_view_def type_view_def Let_def split: option.splits)

text \<open>Every event but a click on a tab or on the clear button leaves the tab state alone.\<close>

lemma step_tabs_frame:
  assumes "step e s = Inr s'" "\<forall>n. e \<noteq> TabClick n" "e \<noteq> ClearClick"
  shows "tabs_view s' = tabs_view s"
proof (cases e)
  case (PointerDown pd)
  with assms(1) drawCallback_frame [of pd s s'] show ?thesis by (auto split: if_splits)
next
  case (PointerMove ox oy)
  with assms(1) dispatch_pointermove_frame [of "(ox, oy)" "strokeListeners s" s s']
  show ?thesis by simp
next
  case (PointerUp pId)
  with assms(1) obtain rest s1 where d: "dispatch_pointerup pId (strokeListeners s) s = Inr (rest, s1)"
    and s': "s' = s1\<lparr>strokeListeners := rest\<rparr>"
    by (auto simp add: bind_r_def split: sum.splits prod.splits)
  from dispatch_pointerup_frame [OF d] s'
  show ?thesis by (simp add: tabs_view_def)
next
  case (ThicknessInput v)
  with assms(1) drawThickness_frame [of "s\<lparr>drawThickness_value := v\<rparr>" s']
  show ?thesis by (auto simp add: Let_def tabs_view_def split: if_splits)
next
  case (ExtractResolved name dec traced)
  with assms(1)
    extractSignature_resume_frame [of name dec traced "s\<lparr>pendingExtract := remove1 name (pendingExtract s)\<rparr>" s']
  show ?thesis by (auto simp add: tabs_view_def split: if_splits)
next
  case (TypeInput v)
  with assms(1) show ?thesis
    by (auto simp add: typeInput_input_listener_def disableButtons_def Let_def tabs_view_def)
next
  case (DescriptionInput v)
  with assms(1) show ?thesis
    by (auto simp add: typeTab_description_listener_def description_input_listener_def Let_def tabs_view_def)
next
  case (L10nResolved d)
  with assms(1) show ?thesis by (auto simp add: l10n_then_def Let_def tabs_view_def split: if_splits)
next
  case PickerClick
  with assms(1) image_listeners_frame(1) [of s]
  show ?thesis by (auto split: if_splits)
next
  case (PickerChange fo)
  with assms(1) image_listeners_frame(2) [of fo s]
  show ?thesis by (auto split: if_splits)
next
  case PickerCancel
  with assms(1) image_listeners_frame(3) [of s]
  show ?thesis by (auto split: if_splits)
next
  case (Drop files)
  with assms(1) image_listeners_frame(4) [of files s]
  show ?thesis by (auto split: if_splits)
next
  case ClearDescriptionClick
  with assms(1) show ?thesis by (auto simp add: clearDescription_click_def tabs_view_def)
next
  case ErrorCloseClick
  with assms(1) show ?thesis by (auto simp add: errorCloseButton_click_def tabs_view_def)
next
  case SaveCheckboxToggle
  with assms(1) show ?thesis by (auto simp add: tabs_view_def)
qed (use assms in simp_all)

subsection \<open>Selecting a tab\<close>

lemma initCurrentTab_fields:
  "tabsToAltText (initCurrentTab r s) = tabsToAltText s"
  "currentTab (initCurrentTab r s) = currentTab s"
  "currentTabAC (initCurrentTab r s) = currentTab s"
  "panels_selected (initCurrentTab r s) = panels_selected s"
  "description_value (initCurrentTab r s) = description_value s"
  "hasDescriptionChanged (initCurrentTab r s) = hasDescriptionChanged s"
  "strokeListeners (initCurrentTab r s) = []"
  "clearDescription_disabled (initCurrentTab r s) = (description_value s = [])"
  by (simp_all add: initCurrentTab_def initTypeTab_def initDrawTab_def initImageTab_def
      disableButtons_def Let_def split: option.splits tab.splits)

lemma initCurrentTab_controls:
  "currentTab s = Some t \<Longrightarrow>
   controls_are (capturable (initCurrentTab r s)) (initCurrentTab r s) \<and>
   (r \<longrightarrow> \<not> capturable (initCurrentTab r s))"
  by (cases t) (simp_all add: initCurrentTab_def initTypeTab_def initDrawTab_def initImageTab_def
      disableButtons_def controls_are_def capturable_def Let_def split: option.splits tab.splits)

lemma initTab_same: "currentTab s = Some a \<Longrightarrow> initTab (Some a) s = Inr s"
  by (simp add: initTab_def)

lemma initTab_switch:
  assumes "tabsToAltText s = Some m" "currentTab s = Some a" "a \<noteq> b"
  shows "initTab (Some b) s =
           Inr (initCurrentTab False
                  (s\<lparr>tabsToAltText := Some (m(Some a := Some (description_value s))),
                     currentTab := Some b,
                     description_value := value_of_get (m (Some b))\<rparr>))"
  using assms
  by (simp add: initTab_def bind_r_def snapshotDescription_def setCurrentTab_def
      restoreDescription_def)

lemma initTab_clear:
  assumes "tabsToAltText s = Some m" "currentTab s = Some a"
  shows "initTab None s =
           Inr (initCurrentTab True
                  (s\<lparr>hasDescriptionChanged := False, description_value := [],
                     tabsToAltText := Some (m(Some a := Some []))\<rparr>))"
  using assms
  by (simp add: initTab_def bind_r_def snapshotDescription_def setCurrentTab_def
      restoreDescription_def resetCommon_def Let_def)

lemma dialog_open_cong: "tabs_view s' = tabs_view s \<Longrightarrow> dialog_open s' = dialog_open s"
  by (simp add: tabs_view_def dialog_open_def)

lemma snapshot_cong:
  "tabs_view s' = tabs_view s \<Longrightarrow> snapshot a s' = snapshot a s \<and> currentTab s' = currentTab s"
  by (simp add: tabs_view_def snapshot_def)

lemma dialog_openD:
  assumes "dialog_open s"
  obtains m c where "tabsToAltText s = Some m" "currentTab s = Some c"
    "panels_selected s = Some c" "currentTabAC s = Some c"
    "m (Some TypeTab) \<noteq> None" "m (Some DrawTab) \<noteq> None" "m (Some ImageTab) \<noteq> None"
  using assms by (auto simp add: dialog_open_def split: option.splits)

lemma tabCallback_same:
  assumes "dialog_open s" "currentTab s = Some a"
  shows "tabCallback a s = Inr s"
proof -
  from assms have "panels_selected s = Some a" by (simp add: dialog_open_def)
  then have "s\<lparr>panels_selected := Some a\<rparr> = s" by simp
  with assms(2) show ?thesis by (simp add: tabCallback_def initTab_same)
qed

lemma tabCallback_switch:
  assumes "tabsToAltText s = Some m" "currentTab s = Some a" "a \<noteq> b"
  shows "tabCallback b s =
           Inr (initCurrentTab False
                  (s\<lparr>panels_selected := Some b,
                     tabsToAltText := Some (m(Some a := Some (description_value s))),
                     currentTab := Some b,
                     description_value := value_of_get (m (Some b))\<rparr>))"
  using initTab_switch [of "s\<lparr>panels_selected := Some b\<rparr>" m a b] assms
  by (simp add: tabCallback_def)

lemma tabCallback_switch_fields:
  assumes "dialog_open s" "currentTab s = Some a" "a \<noteq> b" "tabCallback b s = Inr s'"
  shows "dialog_open s' \<and> currentTab s' = Some b \<and>
         snapshot a s' = Some (description_value s) \<and>
         (\<forall>c. c \<noteq> a \<longrightarrow> snapshot c s' = snapshot c s) \<and>
         description_value s' = value_of_get (snapshot b s)"
proof -
  from assms(1) obtain m where m: "tabsToAltText s = Some m"
    "m (Some TypeTab) \<noteq> None" "m (Some DrawTab) \<noteq> None" "m (Some ImageTab) \<noteq> None"
    by (rule dialog_openD)
  from tabCallback_switch [OF m(1) assms(2) assms(3)] assms(4) m(2-4)
  show ?thesis
    by (auto simp add: initCurrentTab_fields dialog_open_def snapshot_def m(1))
qed

lemma clearButton_click_fields:
  assumes "dialog_open s" "currentTab s = Some a" "clearButton_click s = Inr s'"
  shows "dialog_open s' \<and> currentTab s' = Some a \<and> snapshot a s' = Some [] \<and>
         (\<forall>c. c \<noteq> a \<longrightarrow> snapshot c s' = snapshot c s) \<and>
         description_value s' = [] \<and> \<not> hasDescriptionChanged s'"
proof -
  from assms(1) obtain m where m: "tabsToAltText s = Some m"
    "m (Some TypeTab) \<noteq> None" "m (Some DrawTab) \<noteq> None" "m (Some ImageTab) \<noteq> None"
    "panels_selected s = currentTab s"
    by (auto simp add: dialog_open_def split: option.splits)
  from initTab_clear [OF m(1) assms(2)] assms(2,3) m(2-5)
  show ?thesis
    by (auto simp add: clearButton_click_def initCurrentTab_fields dialog_open_def snapshot_def m(1))
qed

lemma step_dialog_open:
  assumes "dialog_open s" "step e s = Inr s'"
  shows "dialog_open s'"
proof -
  from assms(1) obtain c where c: "currentTab s = Some c" by (rule dialog_openD)
  show ?thesis
  proof (cases e)
    case (TabClick n)
    show ?thesis
    proof (cases "n = c")
      case True
      with tabCallback_same [OF assms(1) c] assms(2) TabClick assms(1) show ?thesis by simp
    next
      case False
      then have "c \<noteq> n" by simp
      from tabCallback_switch_fields [OF assms(1) c this] assms(2) TabClick
      show ?thesis by simp
    qed
  next
    case ClearClick
    with clearButton_click_fields [OF assms(1) c] assms(2) show ?thesis by simp
  qed (use assms step_tabs_frame [of e s s'] dialog_open_cong [of s' s] in simp_all)
qed

lemma step_keeps_snapshot:
  assumes "dialog_open s" "currentTab s \<noteq> Some a" "e \<noteq> TabClick a" "step e s = Inr s'"
  shows "currentTab s' \<noteq> Some a \<and> snapshot a s' = snapshot a s"
proof -
  from assms(1) obtain c where c: "currentTab s = Some c" by (rule dialog_openD)
  with assms(2) have ca: "a \<noteq> c" by auto
  show ?thesis
  proof (cases e)
    case (TabClick n)
    show ?thesis
    proof (cases "n = c")
      case True
      with tabCallback_same [OF assms(1) c] assms(4) TabClick assms(2) show ?thesis by simp
    next
      case False
      then have "c \<noteq> n" by simp
      from tabCallback_switch_fields [OF assms(1) c this] assms(3,4) TabClick ca
      show ?thesis by auto
    qed
  next
    case ClearClick
    with clearButton_click_fields [OF assms(1) c] assms(4) ca show ?thesis by auto
  qed (use assms step_tabs_frame [of e s s'] snapshot_cong [of s' s a] in simp_all)
qed

lemma run_dialog_open: "dialog_open s \<Longrightarrow> run es s = Inr s' \<Longrightarrow> dialog_open s'"
proof (induction es arbitrary: s)
  case Nil
  then show ?case by simp
next
  case (Cons e es)
  from Cons.prems(2) obtain s1 where s1: "step e s = Inr s1" and r: "run es s1 = Inr s'"
    by (rule run_ConsD)
  from Cons.IH [OF step_dialog_open [OF Cons.prems(1) s1] r] show ?case .
qed

lemma run_keeps_snapshot:
  "dialog_open s \<Longrightarrow> currentTab s \<noteq> Some a \<Longrightarrow> TabClick a \<notin> set es \<Longrightarrow>
   run es s = Inr s' \<Longrightarrow> currentTab s' \<noteq> Some a \<and> snapshot a s' = snapshot a s"
proof (induction es arbitrary: s)
  case Nil
  then show ?case by simp
next
  case (Cons e es)
  from Cons.prems(4) obtain s1 where s1: "step e s = Inr s1" and r: "run es s1 = Inr s'"
    by (rule run_ConsD)
  from Cons.prems(3) have ne: "e \<noteq> TabClick a" and rest: "TabClick a \<notin> set es" by auto
  from step_keeps_snapshot [OF Cons.prems(1) Cons.prems(2) ne s1]
  have k: "currentTab s1 \<noteq> Some a" "snapshot a s1 = snapshot a s" by simp_all
  from Cons.IH [OF step_dialog_open [OF Cons.prems(1) s1] k(1) rest r] k(2)
  show ?case by simp
qed

lemma open_dialog_result:
  assumes "currentTab s = None" "tabsToAltText s = None"
  shows "\<exists>s'. open_dialog full ed s = Inr s' \<and> dialog_open s' \<and> currentTab s' = Some TypeTab \<and>
              (\<forall>a. snapshot a s' = Some [])"
  using assms
  by (simp add: open_dialog_def tabCallback_def initTab_def bind_r_def snapshotDescription_def
      setCurrentTab_def restoreDescription_def emit_def Let_def initCurrentTab_fields
      dialog_open_def snapshot_def)

text \<open>
  C1. In an open dialog whose current tab is \<open>a\<close>: selecting \<open>a\<close> again changes
  nothing; selecting another tab \<open>b\<close> stores the description shown into the map under
  \<open>a\<close>, makes \<open>b\<close> current and shows the description stored under \<open>b\<close>; and
  after any further events that do not select \<open>a\<close> and do not throw, selecting
  \<open>a\<close> shows again exactly the description that was shown when \<open>a\<close> was left.
  Moreover a tab that has not been selected since \<^verbatim>\<open>open\<close> shows the empty
  description when it is selected.\<close>

theorem description_follows_the_selected_tab:
  "(dialog_open s \<and> currentTab s = Some a \<and> b \<noteq> a \<longrightarrow>
      step (TabClick a) s = Inr s \<and>
      (\<exists>s1. step (TabClick b) s = Inr s1 \<and> currentTab s1 = Some b \<and>
            snapshot a s1 = Some (description_value s) \<and>
            description_value s1 = value_of_get (snapshot b s) \<and>
            (\<forall>es s2. TabClick a \<notin> set es \<and> run es s1 = Inr s2 \<longrightarrow>
               (\<exists>s3. step (TabClick a) s2 = Inr s3 \<and> currentTab s3 = Some a \<and>
                     description_value s3 = description_value s)))) \<and>
   (currentTab s0 = None \<and> tabsToAltText s0 = None \<longrightarrow>
      (\<exists>s1. open_dialog full ed s0 = Inr s1 \<and>
            (\<forall>es s2 c. c \<noteq> TypeTab \<and> TabClick c \<notin> set es \<and> run es s1 = Inr s2 \<longrightarrow>
               (\<exists>s3. step (TabClick c) s2 = Inr s3 \<and> currentTab s3 = Some c \<and>
                     description_value s3 = []))))"
proof (intro conjI impI)
  assume h: "dialog_open s \<and> currentTab s = Some a \<and> b \<noteq> a"
  then have op: "dialog_open s" and cur: "currentTab s = Some a" and ab: "a \<noteq> b" by auto
  from tabCallback_same [OF op cur] show "step (TabClick a) s = Inr s" by simp
  from op obtain m where m: "tabsToAltText s = Some m" by (rule dialog_openD)
  from tabCallback_switch [OF m cur ab] obtain s1 where s1: "tabCallback b s = Inr s1" by simp
  from tabCallback_switch_fields [OF op cur ab s1]
  have f: "dialog_open s1" "currentTab s1 = Some b" "snapshot a s1 = Some (description_value s)"
    "description_value s1 = value_of_get (snapshot b s)" by simp_all
  have ret: "\<exists>s3. step (TabClick a) s2 = Inr s3 \<and> currentTab s3 = Some a \<and>
                   description_value s3 = description_value s"
    if r: "TabClick a \<notin> set es \<and> run es s1 = Inr s2" for es s2
  proof -
    from f(2) ab have na: "currentTab s1 \<noteq> Some a" by simp
    from r have r1: "TabClick a \<notin> set es" and r2: "run es s1 = Inr s2" by simp_all
    from run_keeps_snapshot [OF f(1) na r1 r2] f(3)
    have k: "currentTab s2 \<noteq> Some a" "snapshot a s2 = Some (description_value s)" by simp_all
    from run_dialog_open [OF f(1) r2] have op2: "dialog_open s2" .
    from op2 obtain m2 c2 where m2: "tabsToAltText s2 = Some m2" and c2: "currentTab s2 = Some c2"
      by (rule dialog_openD)
    from k(1) c2 have ne: "c2 \<noteq> a" by simp
    from tabCallback_switch [OF m2 c2 ne] obtain s3 where s3: "tabCallback a s2 = Inr s3" by simp
    from tabCallback_switch_fields [OF op2 c2 ne s3] k(2)
    have "currentTab s3 = Some a \<and> description_value s3 = description_value s"
      by (simp add: value_of_get_def)
    with s3 show ?thesis by simp
  qed
  from s1 f ret
  show "\<exists>s1. step (TabClick b) s = Inr s1 \<and> currentTab s1 = Some b \<and>
            snapshot a s1 = Some (description_value s) \<and>
            description_value s1 = value_of_get (snapshot b s) \<and>
            (\<forall>es s2. TabClick a \<notin> set es \<and> run es s1 = Inr s2 \<longrightarrow>
               (\<exists>s3. step (TabClick a) s2 = Inr s3 \<and> currentTab s3 = Some a \<and>
                     description_value s3 = description_value s))"
    by auto
next
  assume h: "currentTab s0 = None \<and> tabsToAltText s0 = None"
  from open_dialog_result [of s0 full ed] h
  obtain s1 where s1: "open_dialog full ed s0 = Inr s1" "dialog_open s1" "currentTab s1 = Some TypeTab"
    "\<forall>a. snapshot a s1 = Some []" by auto
  have visit: "\<exists>s3. step (TabClick c) s2 = Inr s3 \<and> currentTab s3 = Some c \<and> description_value s3 = []"
    if r: "c \<noteq> TypeTab \<and> TabClick c \<notin> set es \<and> run es s1 = Inr s2" for es s2 c
  proof -
    from r s1(3) have na: "currentTab s1 \<noteq> Some c" by auto
    from r have r1: "TabClick c \<notin> set es" and r2: "run es s1 = Inr s2" by simp_all
    from run_keeps_snapshot [OF s1(2) na r1 r2] s1(4)
    have k: "currentTab s2 \<noteq> Some c" "snapshot c s2 = Some []" by simp_all
    from run_dialog_open [OF s1(2) r2] have op2: "dialog_open s2" .
    from op2 obtain m2 c2 where m2: "tabsToAltText s2 = Some m2" and c2: "currentTab s2 = Some c2"
      by (rule dialog_openD)
    from k(1) c2 have ne: "c2 \<noteq> c" by simp
    from tabCallback_switch [OF m2 c2 ne] obtain s3 where s3: "tabCallback c s2 = Inr s3" by simp
    from tabCallback_switch_fields [OF op2 c2 ne s3] k(2)
    have "currentTab s3 = Some c \<and> description_value s3 = []"
      by (simp add: value_of_get_def)
    with s3 show ?thesis by simp
  qed
  from s1(1) visit
  show "\<exists>s1. open_dialog full ed s0 = Inr s1 \<and>
            (\<forall>es s2 c. c \<noteq> TypeTab \<and> TabClick c \<notin> set es \<and> run es s1 = Inr s2 \<longrightarrow>
               (\<exists>s3. step (TabClick c) s2 = Inr s3 \<and> currentTab s3 = Some c \<and>
                     description_value s3 = []))"
    by auto
qed

lemma ending_Inr: "r = Inr s \<Longrightarrow> ending r = s"
  by (simp add: ending_def)

theorem description_follows_the_selected_tab_witness:
  "dialog_open typed_abc \<and> currentTab typed_abc = Some TypeTab \<and> DrawTab \<noteq> TypeTab \<and>
   description_value typed_abc = ''abc'' \<and>
   step (TabClick TypeTab) typed_abc = Inr typed_abc \<and>
   (\<exists>s3. run ([TabClick DrawTab] @
               [PointerDown (down_at 3 4), L10nResolved ''Signature'', TabClick ImageTab] @
               [TabClick TypeTab]) typed_abc = Inr s3 \<and>
         currentTab s3 = Some TypeTab \<and> description_value s3 = ''abc'') \<and>
   currentTab closed_dialog = None \<and> tabsToAltText closed_dialog = None \<and>
   (\<exists>s3. run ([TypeInput ''abc''] @ [TabClick ImageTab]) opened_dialog = Inr s3 \<and>
         currentTab s3 = Some ImageTab \<and> description_value s3 = [])"
proof -
  let ?es = "[PointerDown (down_at 3 4), L10nResolved ''Signature'', TabClick ImageTab]"
  have x: "dialog_open typed_abc" "currentTab typed_abc = Some TypeTab"
    "description_value typed_abc = ''abc''"
    by (simp_all add: typed_abc_def dialog_open_def eval_defs listener_defs)
  have c: "currentTab closed_dialog = None" "tabsToAltText closed_dialog = None"
    by (simp_all add: closed_dialog_def)
  note inst = description_follows_the_selected_tab
    [of typed_abc TypeTab DrawTab closed_dialog False "\<lparr>ed_drawId_is_null = True\<rparr>"]
  from inst x have same: "step (TabClick TypeTab) typed_abc = Inr typed_abc" by simp
  from inst x obtain s1 where s1: "step (TabClick DrawTab) typed_abc = Inr s1"
    and ret: "\<forall>es s2. TabClick TypeTab \<notin> set es \<and> run es s1 = Inr s2 \<longrightarrow>
               (\<exists>s3. step (TabClick TypeTab) s2 = Inr s3 \<and> currentTab s3 = Some TypeTab \<and>
                     description_value s3 = description_value typed_abc)"
    by auto
  have "\<exists>s2. run ?es (ending (step (TabClick DrawTab) typed_abc)) = Inr s2"
    by (simp add: typed_abc_def eval_defs listener_defs)
  with s1 obtain s2 where s2: "run ?es s1 = Inr s2" by (auto simp add: ending_def)
  have "TabClick TypeTab \<notin> set ?es" by simp
  with ret s2 have "\<exists>s3. step (TabClick TypeTab) s2 = Inr s3 \<and> currentTab s3 = Some TypeTab \<and>
                     description_value s3 = description_value typed_abc"
    by blast
  then obtain s3 where s3: "step (TabClick TypeTab) s2 = Inr s3"
    "currentTab s3 = Some TypeTab" "description_value s3 = description_value typed_abc"
    by blast
  have "run ([TabClick DrawTab] @ ?es @ [TabClick TypeTab]) typed_abc = Inr s3"
    by (simp only: run_append [OF run_single [OF s1]] run_append [OF s2] run_single [OF s3(1)])
  with s3 x(3)
  have first: "\<exists>s3. run ([TabClick DrawTab] @ ?es @ [TabClick TypeTab]) typed_abc = Inr s3 \<and>
         currentTab s3 = Some TypeTab \<and> description_value s3 = ''abc''"
    by simp
  from inst c obtain o1 where o1: "open_dialog False \<lparr>ed_drawId_is_null = True\<rparr> closed_dialog = Inr o1"
    and visit: "\<forall>es s2 c. c \<noteq> TypeTab \<and> TabClick c \<notin> set es \<and> run es o1 = Inr s2 \<longrightarrow>
               (\<exists>s3. step (TabClick c) s2 = Inr s3 \<and> currentTab s3 = Some c \<and>
                     description_value s3 = [])"
    by auto
  from o1 have o1': "o1 = opened_dialog" by (simp add: opened_dialog_def ending_def)
  have ta: "step (TypeInput ''abc'') opened_dialog = Inr typed_abc"
    by (simp add: typed_abc_def eval_defs listener_defs)
  then have "run [TypeInput ''abc''] opened_dialog = Inr typed_abc"
    by (rule run_single)
  moreover have "ImageTab \<noteq> TypeTab \<and> TabClick ImageTab \<notin> set [TypeInput ''abc'']" by simp
  ultimately have "\<exists>s3. step (TabClick ImageTab) typed_abc = Inr s3 \<and>
      currentTab s3 = Some ImageTab \<and> description_value s3 = []"
    using visit o1' by blast
  then obtain t3 where t3: "step (TabClick ImageTab) typed_abc = Inr t3"
    "currentTab t3 = Some ImageTab" "description_value t3 = []"
    by blast
  have "run ([TypeInput ''abc''] @ [TabClick ImageTab]) opened_dialog = Inr t3"
    by (simp only: run_append [OF run_single [OF ta]] run_single [OF t3(1)])
  with t3
  have second: "\<exists>s3. run ([TypeInput ''abc''] @ [TabClick ImageTab]) opened_dialog = Inr s3 \<and>
         currentTab s3 = Some ImageTab \<and> description_value s3 = []"
    by simp
  from x c same first second show ?thesis by simp
qed

subsection \<open>Clearing the signature\<close>

lemma initCurrentTab_reset_captures:
  assumes "currentTab s = Some a"
  shows "(case a of
            TypeTab \<Rightarrow>
              typeInput_value (initCurrentTab True s) = [] \<and>
              draw_capture (initCurrentTab True s) = draw_capture s \<and>
              image_capture (initCurrentTab True s) = image_capture s
          | DrawTab \<Rightarrow>
              drawCurves (initCurrentTab True s) = None \<and>
              drawPoints (initCurrentTab True s) = None \<and>
              drawPathString (initCurrentTab True s) = [] \<and>
              drawPath (initCurrentTab True s) = None \<and>
              typeInput_value (initCurrentTab True s) = typeInput_value s \<and>
              image_capture (initCurrentTab True s) = image_capture s
          | ImageTab \<Rightarrow>
              imagePath (initCurrentTab True s) = None \<and>
              \<not> imagePlaceholder_hidden (initCurrentTab True s) \<and>
              typeInput_value (initCurrentTab True s) = typeInput_value s \<and>
              draw_capture (initCurrentTab True s) = draw_capture s)"
  using assms
  by (cases a)
    (simp_all add: initCurrentTab_def initTypeTab_def initDrawTab_def initImageTab_def
      disableButtons_def draw_capture_def image_capture_def Let_def)

text \<open>
  C10. In an open dialog the clear button (\<^verbatim>\<open>#initTab(null)\<close>) never throws. It
  empties the description, resets the dirty flag and sets the description stored for the
  current tab to the empty string; it resets the capture of the current tab only (the
  typed text; or the stroke buffer, the points, the path string and the path of the
  drawing; or the path of the traced image, with its placeholder shown again); the
  descriptions stored for the other two tabs and the captures of the other two tabs stay
  as they were.\<close>

theorem clear_resets_only_the_active_tab:
  assumes "dialog_open s" "currentTab s = Some a"
  shows "\<exists>s'. step ClearClick s = Inr s' \<and>
           description_value s' = [] \<and> \<not> hasDescriptionChanged s' \<and>
           snapshot a s' = Some [] \<and> (\<forall>c. c \<noteq> a \<longrightarrow> snapshot c s' = snapshot c s) \<and>
           (case a of
              TypeTab \<Rightarrow>
                typeInput_value s' = [] \<and> draw_capture s' = draw_capture s \<and>
                image_capture s' = image_capture s
            | DrawTab \<Rightarrow>
                drawCurves s' = None \<and> drawPoints s' = None \<and> drawPathString s' = [] \<and>
                drawPath s' = None \<and> typeInput_value s' = typeInput_value s \<and>
                image_capture s' = image_capture s
            | ImageTab \<Rightarrow>
                imagePath s' = None \<and> \<not> imagePlaceholder_hidden s' \<and>
                typeInput_value s' = typeInput_value s \<and> draw_capture s' = draw_capture s)"
proof -
  from assms(1) obtain m where m: "tabsToAltText s = Some m" by (rule dialog_openD)
  let ?t = "s\<lparr>hasDescriptionChanged := False, description_value := [],
               tabsToAltText := Some (m(Some a := Some []))\<rparr>"
  from initTab_clear [OF m assms(2)]
  have r: "step ClearClick s = Inr (initCurrentTab True ?t)"
    by (simp add: clearButton_click_def)
  from clearButton_click_fields [OF assms(1) assms(2)] r
  have f: "description_value (initCurrentTab True ?t) = []"
    "\<not> hasDescriptionChanged (initCurrentTab True ?t)"
    "snapshot a (initCurrentTab True ?t) = Some []"
    "\<forall>c. c \<noteq> a \<longrightarrow> snapshot c (initCurrentTab True ?t) = snapshot c s"
    by simp_all
  have cur: "currentTab ?t = Some a" using assms(2) by simp
  from initCurrentTab_reset_captures [OF cur]
  have g: "(case a of
              TypeTab \<Rightarrow>
                typeInput_value (initCurrentTab True ?t) = [] \<and>
                draw_capture (initCurrentTab True ?t) = draw_capture s \<and>
                image_capture (initCurrentTab True ?t) = image_capture s
            | DrawTab \<Rightarrow>
                drawCurves (initCurrentTab True ?t) = None \<and>
                drawPoints (initCurrentTab True ?t) = None \<and>
                drawPathString (initCurrentTab True ?t) = [] \<and>
                drawPath (initCurrentTab True ?t) = None \<and>
                typeInput_value (initCurrentTab True ?t) = typeInput_value s \<and>
                image_capture (initCurrentTab True ?t) = image_capture s
            | ImageTab \<Rightarrow>
                imagePath (initCurrentTab True ?t) = None \<and>
                \<not> imagePlaceholder_hidden (initCurrentTab True ?t) \<and>
                typeInput_value (initCurrentTab True ?t) = typeInput_value s \<and>
                draw_capture (initCurrentTab True ?t) = draw_capture s)"
    by (cases a) (simp_all add: draw_capture_def image_capture_def)
  from r f g show ?thesis by blast
qed

theorem clear_resets_only_the_active_tab_witness:
  "dialog_open typed_and_drawn \<and> currentTab typed_and_drawn = Some TypeTab \<and>
   typeInput_value typed_and_drawn = ''abc'' \<and> description_value typed_and_drawn = ''abc'' \<and>
   drawPathString typed_and_drawn = [M 3 4, L 3 4] \<and>
   (\<exists>s'. step ClearClick typed_and_drawn = Inr s' \<and>
         description_value s' = [] \<and> \<not> hasDescriptionChanged s' \<and>
         snapshot TypeTab s' = Some [] \<and>
         snapshot DrawTab s' = snapshot DrawTab typed_and_drawn \<and>
         snapshot ImageTab s' = snapshot ImageTab typed_and_drawn \<and>
         typeInput_value s' = [] \<and> draw_capture s' = draw_capture typed_and_drawn \<and>
         image_capture s' = image_capture typed_and_drawn)"
proof -
  have x: "dialog_open typed_and_drawn" "currentTab typed_and_drawn = Some TypeTab"
    "typeInput_value typed_and_drawn = ''abc''" "description_value typed_and_drawn = ''abc''"
    "drawPathString typed_and_drawn = [M 3 4, L 3 4]"
    by (simp_all add: typed_and_drawn_def typed_abc_def dialog_open_def eval_defs listener_defs)
  from clear_resets_only_the_active_tab [OF x(1) x(2)] x show ?thesis
    by auto
qed

subsection \<open>The commit controls\<close>

lemma capturable_cong:
  "tabs_view s' = tabs_view s \<Longrightarrow> typeInput_value s' = typeInput_value s \<Longrightarrow>
   imagePath s' = imagePath s \<Longrightarrow> (drawPath s' = None) = (drawPath s = None) \<Longrightarrow>
   capturable s' = capturable s"
  by (simp add: capturable_def tabs_view_def split: option.splits tab.splits)

lemma controls_are_cong: "controls_view s' = controls_view s \<Longrightarrow> controls_are b s' = controls_are b s"
  by (simp add: controls_are_def controls_view_def)

lemma type_viewD: "type_view s' = type_view s \<Longrightarrow> typeInput_value s' = typeInput_value s"
  by (simp add: type_view_def)

text \<open>Events whose listeners touch neither the controls nor what the controls depend on.\<close>

lemma step_inert:
  assumes "step e s = Inr s'"
    and "e = ErrorCloseClick \<or> e = SaveCheckboxToggle \<or> e = ClearDescriptionClick \<or>
         (\<exists>v. e = DescriptionInput v) \<or> (\<exists>d. e = L10nResolved d) \<or>
         (\<exists>ox oy. e = PointerMove ox oy) \<or> (\<exists>p. e = PointerUp p) \<or>
         (\<exists>v. e = ThicknessInput v) \<or> e = PickerClick \<or> (\<exists>fo. e = PickerChange fo) \<or>
         e = PickerCancel \<or> (\<exists>fs. e = Drop fs)"
  shows "tabs_view s' = tabs_view s \<and> controls_view s' = controls_view s \<and>
         typeInput_value s' = typeInput_value s \<and> imagePath s' = imagePath s \<and>
         (drawPath s' = None) = (drawPath s = None)"
proof (cases e)
  case (PointerMove ox oy)
  with assms(1) dispatch_pointermove_frame [of "(ox, oy)" "strokeListeners s" s s']
  show ?thesis by (simp add: type_view_def)
next
  case (PointerUp pId)
  with assms(1) obtain rest s1 where d: "dispatch_pointerup pId (strokeListeners s) s = Inr (rest, s1)"
    and s': "s' = s1\<lparr>strokeListeners := rest\<rparr>"
    by (auto simp add: bind_r_def split: sum.splits prod.splits)
  from dispatch_pointerup_frame [OF d] s'
  show ?thesis by (simp add: tabs_view_def controls_view_def type_view_def)
next
  case (ThicknessInput v)
  with assms(1) drawThickness_frame [of "s\<lparr>drawThickness_value := v\<rparr>" s']
  show ?thesis
    by (auto simp add: Let_def tabs_view_def controls_view_def type_view_def split: if_splits)
next
  case (DescriptionInput v)
  with assms(1) show ?thesis
    by (auto simp add: typeTab_description_listener_def description_input_listener_def Let_def
        tabs_view_def controls_view_def split: if_splits)
next
  case (L10nResolved d)
  with assms(1) show ?thesis
    by (auto simp add: l10n_then_def Let_def tabs_view_def controls_view_def split: if_splits)
next
  case PickerClick
  with assms(1) image_listeners_frame(1) [of s]
  show ?thesis by (auto simp add: type_view_def split: if_splits)
next
  case (PickerChange fo)
  with assms(1) image_listeners_frame(2) [of fo s]
  show ?thesis by (auto simp add: type_view_def split: if_splits)
next
  case PickerCancel
  with assms(1) image_listeners_frame(3) [of s]
  show ?thesis by (auto simp add: type_view_def split: if_splits)
next
  case (Drop files)
  with assms(1) image_listeners_frame(4) [of files s]
  show ?thesis by (auto simp add: type_view_def split: if_splits)
next
  case ClearDescriptionClick
  with assms(1) show ?thesis
    by (auto simp add: clearDescription_click_def tabs_view_def controls_view_def)
next
  case ErrorCloseClick
  with assms(1) show ?thesis
    by (auto simp add: errorCloseButton_click_def tabs_view_def controls_view_def)
next
  case SaveCheckboxToggle
  with assms(1) show ?thesis by (auto simp add: tabs_view_def controls_view_def)
qed (use assms(2) in simp_all)

lemma drawCallback_controls:
  assumes "drawCallback e s = Inr s'" "controls_are (drawPath s \<noteq> None) s"
  shows "controls_are (drawPath s' \<noteq> None) s'"
  using assms
  by (clarsimp simp add: drawCallback_def firstStroke_def beginStroke_def disableButtons_def
      controls_are_def Let_def split: option.splits if_splits)

lemma extractSignature_resume_controls:
  assumes "extractSignature_resume name dec traced s = Inr s'"
    "controls_are (imagePath s \<noteq> None) s"
  shows "controls_are (imagePath s' \<noteq> None) s'"
  using assms
  by (clarsimp simp add: extractSignature_resume_def showError_def showImage_def emit_def
      disableButtons_def controls_are_def Let_def
      split: decode_result.splits option.splits if_splits)

lemma typeInput_listener_controls:
  "controls_are (typeInput_value s \<noteq> []) (typeInput_input_listener s) \<and>
   tabs_view (typeInput_input_listener s) = tabs_view s \<and>
   typeInput_value (typeInput_input_listener s) = typeInput_value s"
  by (simp add: typeInput_input_listener_def disableButtons_def controls_are_def tabs_view_def
      Let_def)

lemma initCurrentTab_controls_current:
  assumes "currentTab s \<noteq> None"
  shows "controls_are (capturable (initCurrentTab r s)) (initCurrentTab r s)"
proof -
  from assms obtain t where "currentTab s = Some t" by auto
  from initCurrentTab_controls [OF this] show ?thesis by simp
qed

lemma step_controls:
  assumes opn: "dialog_open s" and inv: "controls_are (capturable s) s"
    and tm: "timely e s" and st: "step e s = Inr s'"
  shows "controls_are (capturable s') s'"
proof -
  from opn obtain m c where m: "tabsToAltText s = Some m" and c: "currentTab s = Some c"
    and ac: "currentTabAC s = Some c"
    by (rule dialog_openD)
  show ?thesis
  proof (cases e)
    case (TabClick n)
    show ?thesis
    proof (cases "n = c")
      case True
      with tabCallback_same [OF opn c] st TabClick inv show ?thesis by simp
    next
      case False
      then have "c \<noteq> n" by simp
      from tabCallback_switch [OF m c this] st TabClick
      show ?thesis by (auto intro: initCurrentTab_controls_current)
    qed
  next
    case ClearClick
    with initTab_clear [OF m c] st c
    show ?thesis by (auto simp add: clearButton_click_def intro: initCurrentTab_controls_current)
  next
    case (TypeInput v)
    show ?thesis
    proof (cases "c = TypeTab")
      case True
      with TypeInput st ac
      have s': "s' = typeInput_input_listener (s\<lparr>typeInput_value := v\<rparr>)" by (simp add: Let_def)
      from typeInput_listener_controls [of "s\<lparr>typeInput_value := v\<rparr>"] c True
      show ?thesis by (simp add: s' capturable_def tabs_view_def)
    next
      case False
      with TypeInput st ac have s': "s' = s\<lparr>typeInput_value := v\<rparr>" by (simp add: Let_def)
      from inv c False show ?thesis
        by (cases c) (simp_all add: s' capturable_def controls_are_def)
    qed
  next
    case (PointerDown pd)
    show ?thesis
    proof (cases "c = DrawTab")
      case True
      with PointerDown st ac have d: "drawCallback pd s = Inr s'" by simp
      from inv c True have "controls_are (drawPath s \<noteq> None) s" by (simp add: capturable_def)
      from drawCallback_controls [OF d this] drawCallback_frame [OF d] c True
      show ?thesis by (simp add: capturable_def tabs_view_def)
    next
      case False
      with PointerDown st ac inv show ?thesis by simp
    qed
  next
    case (ExtractResolved name dec traced)
    with tm c have ci: "c = ImageTab" by simp
    show ?thesis
    proof (cases "name \<in> set (pendingExtract s)")
      case True
      let ?t = "s\<lparr>pendingExtract := remove1 name (pendingExtract s)\<rparr>"
      from True ExtractResolved st have d: "extractSignature_resume name dec traced ?t = Inr s'"
        by simp
      from inv c ci have "controls_are (imagePath ?t \<noteq> None) ?t"
        by (simp add: capturable_def controls_are_def)
      from extractSignature_resume_controls [OF d this] extractSignature_resume_frame [OF d] c ci
      show ?thesis by (simp add: capturable_def tabs_view_def)
    next
      case False
      with ExtractResolved st inv show ?thesis by simp
    qed
  qed (use step_inert [OF st] capturable_cong [of s' s] controls_are_cong [of s' s] inv
       in simp_all)
qed

lemma run_controls:
  "dialog_open s \<Longrightarrow> controls_are (capturable s) s \<Longrightarrow> timely_run es s \<Longrightarrow>
   run es s = Inr s' \<Longrightarrow> dialog_open s' \<and> controls_are (capturable s') s'"
proof (induction es arbitrary: s)
  case Nil
  then show ?case by simp
next
  case (Cons e es)
  from Cons.prems(4) obtain s1 where s1: "step e s = Inr s1" and r: "run es s1 = Inr s'"
    by (rule run_ConsD)
  from Cons.prems(3) s1 have tm: "timely e s" and tr: "timely_run es s1"
    by (simp_all add: ending_def del: step.simps)
  from Cons.IH [OF step_dialog_open [OF Cons.prems(1) s1]
      step_controls [OF Cons.prems(1) Cons.prems(2) tm s1] tr r]
  show ?case .
qed

lemma clear_disables:
  assumes "dialog_open s"
  shows "\<exists>s'. step ClearClick s = Inr s' \<and> controls_are False s' \<and> \<not> capturable s'"
proof -
  from assms obtain m c where m: "tabsToAltText s = Some m" and c: "currentTab s = Some c"
    by (rule dialog_openD)
  let ?t = "s\<lparr>hasDescriptionChanged := False, description_value := [],
               tabsToAltText := Some (m(Some c := Some []))\<rparr>"
  from c have "currentTab ?t = Some c" by simp
  from initCurrentTab_controls [OF this, of True]
  have b: "capturable (initCurrentTab True ?t) = False"
    and a: "controls_are (capturable (initCurrentTab True ?t)) (initCurrentTab True ?t)"
    by blast+
  from a have "controls_are False (initCurrentTab True ?t)" unfolding b .
  with b initTab_clear [OF m c]
  show ?thesis by (simp add: clearButton_click_def)
qed

lemma open_dialog_controls:
  assumes "currentTab s = None" "tabsToAltText s = None"
  shows "\<exists>s'. open_dialog full ed s = Inr s' \<and> dialog_open s' \<and> controls_are (capturable s') s'"
  using assms
  by (simp add: open_dialog_def tabCallback_def initTab_def bind_r_def snapshotDescription_def
      setCurrentTab_def restoreDescription_def emit_def Let_def initCurrentTab_fields
      dialog_open_def initCurrentTab_controls_current)

text \<open>
  C3, as the code has it. After \<^verbatim>\<open>open\<close> on a closed dialog, and after any events
  that do not throw and among which every image extraction completes while the image
  tab is current, the add button, the clear button and the save container are enabled if
  and only if the current tab has a capture: a non-empty typed text on the type tab, a
  path of the drawing on the draw tab (it exists from the first \<^verbatim>\<open>pointerdown\<close> of
  the first stroke on), a path of a traced image on the image tab. In every such state
  the clear button does not throw and leaves the three controls disabled and the tab
  without a capture.\<close>

theorem controls_follow_the_capture:
  assumes "currentTab s0 = None" "tabsToAltText s0 = None"
  shows "\<exists>s1. open_dialog full ed s0 = Inr s1 \<and>
           (\<forall>es s. timely_run es s1 \<and> run es s1 = Inr s \<longrightarrow>
              controls_are (capturable s) s \<and>
              (\<exists>s'. step ClearClick s = Inr s' \<and> controls_are False s' \<and> \<not> capturable s'))"
proof -
  from open_dialog_controls [OF assms, of full ed]
  obtain s1 where s1: "open_dialog full ed s0 = Inr s1" "dialog_open s1"
    "controls_are (capturable s1) s1" by blast
  have "controls_are (capturable s) s \<and>
        (\<exists>s'. step ClearClick s = Inr s' \<and> controls_are False s' \<and> \<not> capturable s')"
    if h: "timely_run es s1 \<and> run es s1 = Inr s" for es s
  proof -
    from h have tr: "timely_run es s1" and r: "run es s1 = Inr s" by simp_all
    from run_controls [OF s1(2) s1(3) tr r] clear_disables [of s] show ?thesis by simp
  qed
  with s1(1) show ?thesis by blast
qed

theorem controls_follow_the_capture_witness:
  "currentTab closed_dialog = None \<and> tabsToAltText closed_dialog = None \<and>
   timely_run [TypeInput ''abc'', TabClick ImageTab, PickerChange (Some png_file),
               ExtractResolved ''a.png'' Decoded (Some traced_outline)] opened_dialog \<and>
   (\<exists>s. run [TypeInput ''abc'', TabClick ImageTab, PickerChange (Some png_file),
              ExtractResolved ''a.png'' Decoded (Some traced_outline)] opened_dialog = Inr s \<and>
        capturable s \<and> controls_are True s \<and>
        (\<exists>s'. step ClearClick s = Inr s' \<and> controls_are False s' \<and> \<not> capturable s'))"
proof -
  let ?es = "[TypeInput ''abc'', TabClick ImageTab, PickerChange (Some png_file),
              ExtractResolved ''a.png'' Decoded (Some traced_outline)]"
  have c: "currentTab closed_dialog = None" "tabsToAltText closed_dialog = None"
    by (simp_all add: closed_dialog_def)
  from controls_follow_the_capture [OF c, of False "\<lparr>ed_drawId_is_null = True\<rparr>"]
  obtain s1 where s1: "open_dialog False \<lparr>ed_drawId_is_null = True\<rparr> closed_dialog = Inr s1"
    and all: "\<forall>es s. timely_run es s1 \<and> run es s1 = Inr s \<longrightarrow>
              controls_are (capturable s) s \<and>
              (\<exists>s'. step ClearClick s = Inr s' \<and> controls_are False s' \<and> \<not> capturable s')"
    by blast
  from s1 have o: "s1 = opened_dialog" by (simp add: opened_dialog_def ending_def)
  have tr: "timely_run ?es opened_dialog"
    by (simp add: eval_defs listener_defs image_defs)
  have "\<exists>s. run ?es opened_dialog = Inr s \<and> capturable s"
    by (simp add: eval_defs listener_defs image_defs capturable_def)
  then obtain s where s: "run ?es opened_dialog = Inr s" "capturable s" by blast
  from all o tr s(1)
  have "controls_are (capturable s) s \<and>
        (\<exists>s'. step ClearClick s = Inr s' \<and> controls_are False s' \<and> \<not> capturable s')"
    by blast
  with s c tr show ?thesis by auto
qed

text \<open>
  C3 with a completed stroke and at every reachable state, as the specification has it,
  does not hold. First run: on the draw tab the \<^verbatim>\<open>pointerdown\<close> that starts the first
  stroke enables the three controls, while no stroke is completed before the
  \<^verbatim>\<open>pointerup\<close>. Second run: a file is picked on the image tab and the type tab is
  selected before the file is decoded; when the extraction completes, the controls are
  enabled on the type tab, whose text is empty.\<close>

theorem controls_enabled_without_capture:
  "map controls_state
     (trace [TabClick DrawTab, PointerDown (down_at 3 4), PointerUp 1] opened_dialog) =
     [(Some DrawTab, False, 0, False), (Some DrawTab, True, 0, False), (Some DrawTab, True, 1, True)] \<and>
   map controls_state
     (trace [TabClick ImageTab, PickerChange (Some png_file), TabClick TypeTab,
             ExtractResolved ''a.png'' Decoded (Some traced_outline)] opened_dialog) =
     [(Some ImageTab, False, 0, False), (Some ImageTab, False, 0, False),
      (Some TypeTab, False, 0, False), (Some TypeTab, True, 0, False)]"
  by (simp add: controls_state_def eval_defs listener_defs image_defs controls_are_def
      completed_strokes_def claimed_capturable_def)

subsection \<open>The dirty flag\<close>




lemma initTab_flag:
  "initTab (Some n) s = Inr s' \<Longrightarrow> hasDescriptionChanged s' = hasDescriptionChanged s"
  by (clarsimp simp add: initTab_def bind_r_def snapshotDescription_def setCurrentTab_def
      restoreDescription_def initCurrentTab_fields split: if_splits option.splits)

text \<open>Only the clear button and an edit of the description write the dirty flag.\<close>

lemma step_flag:
  assumes "step e s = Inr s'" "e \<noteq> ClearClick" "\<forall>v. e \<noteq> DescriptionInput v"
  shows "hasDescriptionChanged s' = hasDescriptionChanged s"
proof (cases e)
  case (TabClick n)
  with assms(1) initTab_flag [of n "s\<lparr>panels_selected := Some n\<rparr>" s']
  show ?thesis by (simp add: tabCallback_def)
next
  case (TypeInput v)
  with assms(1) show ?thesis
    by (auto simp add: typeInput_input_listener_def disableButtons_def Let_def split: if_splits)
next
  case (PointerDown pd)
  with assms(1) drawCallback_frame [of pd s s'] show ?thesis
    by (auto simp add: type_view_def split: if_splits)
next
  case (PointerMove ox oy)
  with assms(1) dispatch_pointermove_frame [of "(ox, oy)" "strokeListeners s" s s']
  show ?thesis by (simp add: type_view_def)
next
  case (PointerUp pId)
  with assms(1) obtain rest s1 where d: "dispatch_pointerup pId (strokeListeners s) s = Inr (rest, s1)"
    and s': "s' = s1\<lparr>strokeListeners := rest\<rparr>"
    by (auto simp add: bind_r_def split: sum.splits prod.splits)
  from dispatch_pointerup_frame [OF d] s'
  show ?thesis by (simp add: type_view_def)
next
  case (ThicknessInput v)
  with assms(1) drawThickness_frame [of "s\<lparr>drawThickness_value := v\<rparr>" s']
  show ?thesis by (auto simp add: Let_def type_view_def split: if_splits)
next
  case (ExtractResolved name dec traced)
  with assms(1)
    extractSignature_resume_frame [of name dec traced "s\<lparr>pendingExtract := remove1 name (pendingExtract s)\<rparr>" s']
  show ?thesis by (auto simp add: type_view_def split: if_splits)
next
  case (L10nResolved d)
  with assms(1) show ?thesis by (auto simp add: l10n_then_def Let_def split: if_splits)
next
  case PickerClick
  with assms(1) image_listeners_frame(1) [of s]
  show ?thesis by (auto simp add: type_view_def split: if_splits)
next
  case (PickerChange fo)
  with assms(1) image_listeners_frame(2) [of fo s]
  show ?thesis by (auto simp add: type_view_def split: if_splits)
next
  case PickerCancel
  with assms(1) image_listeners_frame(3) [of s]
  show ?thesis by (auto simp add: type_view_def split: if_splits)
next
  case (Drop files)
  with assms(1) image_listeners_frame(4) [of files s]
  show ?thesis by (auto simp add: type_view_def split: if_splits)
next
  case ClearDescriptionClick
  with assms(1) show ?thesis by (auto simp add: clearDescription_click_def)
next
  case ErrorCloseClick
  with assms(1) show ?thesis by (auto simp add: errorCloseButton_click_def)
next
  case SaveCheckboxToggle
  with assms(1) show ?thesis by auto
qed (use assms in simp_all)

lemma description_step_any:
  assumes "step (DescriptionInput d) s = Inr s'"
  shows "description_value s' = d \<and> typeInput_value s' = typeInput_value s \<and>
         hasDescriptionChanged s' =
           (if currentTabAC s = Some TypeTab then typeInput_value s \<noteq> d
            else hasDescriptionChanged s)"
  using assms
  by (auto simp add: typeTab_description_listener_def description_input_listener_def Let_def
      split: if_splits)



subsection \<open>Mirroring the typed text into the description\<close>




subsection \<open>Clearing the description\<close>

text \<open>
  C5, as the code has it. The clear-description control sets the description to the
  empty string, disables itself and changes nothing else, so the dirty flag keeps its
  value. In every state where the flag is set (as it is after such a clear, when it was
  set before), a keystroke in the type field leaves the description unchanged and the flag
  set; and an event can leave the flag unset (so that mirroring resumes) only if it is
  an edit of the description on the type tab that makes it equal to the typed text, or a
  click on the clear button of the dialog, on whichever tab.\<close>

theorem clear_description_keeps_the_dirty_flag:
  "step ClearDescriptionClick s =
     Inr (s\<lparr>description_value := [], clearDescription_disabled := True\<rparr>) \<and>
   (hasDescriptionChanged s \<longrightarrow>
      (\<exists>t. step (TypeInput v) s = Inr t \<and> description_value t = description_value s \<and>
           hasDescriptionChanged t) \<and>
      (\<forall>e s'. step e s = Inr s' \<and> \<not> hasDescriptionChanged s' \<longrightarrow>
         e = ClearClick \<or>
         (e = DescriptionInput (typeInput_value s) \<and> currentTabAC s = Some TypeTab \<and>
          description_value s' = typeInput_value s')))"
proof (intro conjI impI allI)
  show "step ClearDescriptionClick s =
     Inr (s\<lparr>description_value := [], clearDescription_disabled := True\<rparr>)"
    by (simp add: clearDescription_click_def)
next
  assume dirty: "hasDescriptionChanged s"
  then show "\<exists>t. step (TypeInput v) s = Inr t \<and> description_value t = description_value s \<and>
           hasDescriptionChanged t"
    by (simp add: typeInput_input_listener_def disableButtons_def Let_def)
next
  fix e s'
  assume dirty: "hasDescriptionChanged s"
    and h: "step e s = Inr s' \<and> \<not> hasDescriptionChanged s'"
  then have st: "step e s = Inr s'" and clean: "\<not> hasDescriptionChanged s'" by simp_all
  show "e = ClearClick \<or>
         (e = DescriptionInput (typeInput_value s) \<and> currentTabAC s = Some TypeTab \<and>
          description_value s' = typeInput_value s')"
  proof (cases "e = ClearClick")
    case True
    then show ?thesis by simp
  next
    case False
    with step_flag [OF st] dirty clean obtain d where d: "e = DescriptionInput d" by auto
    from description_step_any [of d s s'] st d dirty clean
    show ?thesis by (auto split: if_splits)
  qed
qed

theorem clear_description_keeps_the_dirty_flag_witness:
  "hasDescriptionChanged edited_hello \<and>
   (\<exists>t. step ClearDescriptionClick edited_hello = Inr t \<and> description_value t = [] \<and>
        clearDescription_disabled t \<and> hasDescriptionChanged t) \<and>
   (\<exists>t. step (TypeInput ''abcd'') edited_hello = Inr t \<and> description_value t = ''Hello'' \<and>
        hasDescriptionChanged t) \<and>
   (\<exists>s'. step (DescriptionInput ''abc'') edited_hello = Inr s' \<and> \<not> hasDescriptionChanged s' \<and>
         currentTabAC edited_hello = Some TypeTab \<and> description_value s' = typeInput_value s')"
proof -
  have b: "hasDescriptionChanged edited_hello" "description_value edited_hello = ''Hello''"
    "typeInput_value edited_hello = ''abc''"
    by (simp_all add: edited_hello_def typed_abc_def eval_defs listener_defs)
  have "\<exists>s'. step (DescriptionInput ''abc'') edited_hello = Inr s' \<and> \<not> hasDescriptionChanged s'"
    by (simp add: edited_hello_def typed_abc_def eval_defs listener_defs)
  then obtain s' where s': "step (DescriptionInput ''abc'') edited_hello = Inr s'"
    "\<not> hasDescriptionChanged s'" by blast
  note inst = clear_description_keeps_the_dirty_flag [of edited_hello "''abcd''"]
  from inst b(1) s' have "currentTabAC edited_hello = Some TypeTab \<and>
      description_value s' = typeInput_value s'"
    by blast
  with inst b s' show ?thesis by auto
qed

text \<open>
  C5 with mirroring resumed only by an equal description, as the specification has it,
  does not hold. With "abc" typed and the description edited to "Hello" the flag is
  set. The description is then cleared; the user selects the draw
  tab, starts a stroke, clicks the clear button of the dialog and selects the type tab
  again. In all these states the description is empty and the typed text is "abc", yet
  the clear button has reset the flag, and the next keystroke is mirrored into the
  description.\<close>

theorem mirroring_resumes_after_clearing_another_tab:
  "hasDescriptionChanged edited_hello \<and>
   map shown
     (trace [ClearDescriptionClick, TabClick DrawTab, PointerDown (down_at 3 4), ClearClick,
             TabClick TypeTab, TypeInput ''abcd''] edited_hello) =
     [(Some TypeTab, ''abc'', [], True),
      (Some DrawTab, ''abc'', [], True),
      (Some DrawTab, ''abc'', [], True),
      (Some DrawTab, ''abc'', [], False),
      (Some TypeTab, ''abc'', [], False),
      (Some TypeTab, ''abcd'', ''abcd'', False)]"
  by (simp add: edited_hello_def typed_abc_def shown_def eval_defs listener_defs)

subsection \<open>An extraction without an outline\<close>

text \<open>
  C7 at a tracing without outline. The image tab of the opened dialog holds no capture
  and waits for the file "a.png"; the file decodes and \<^verbatim>\<open>getFromImage\<close> returns
  \<^verbatim>\<open>null\<close>. The continuation of \<^verbatim>\<open>#extractSignature\<close> stores the \<^verbatim>\<open>null\<close> and
  throws when it destructures it, before the test of the outline: no path is shown, the
  controls stay disabled, no payload is kept and the error bar stays hidden, but the
  waiting indicator is still set. Only for a result that is an object without an outline
  does the continuation return and reset the indicator, and that object is then kept as
  the extracted data.\<close>

theorem null_tracing_leaves_the_dialog_waiting:
  "image_state awaiting_image = (None, False, None, True, True) \<and>
   isl (step (ExtractResolved ''a.png'' Decoded None) awaiting_image) \<and>
   image_state (ending (step (ExtractResolved ''a.png'' Decoded None) awaiting_image)) =
     (None, False, None, True, True) \<and>
   \<not> isl (step (ExtractResolved ''a.png'' Decoded (Some traced_nothing)) awaiting_image) \<and>
   image_state
     (ending (step (ExtractResolved ''a.png'' Decoded (Some traced_nothing)) awaiting_image)) =
     (None, False, Some traced_nothing, False, True)"
  by (simp add: awaiting_image_def image_state_def eval_defs image_defs traced_nothing_def
      controls_are_def)

text \<open>
  For a result that is an object without an outline, in general: from an image tab without
  a capture the continuation returns, shows no path, leaves the controls disabled and the
  error bar as it was, resets the waiting indicator, and keeps the object.\<close>

lemma outline_less_result_resets_waiting:
  assumes "currentEditor s = Some ed" "name \<in> set (pendingExtract s)" "p_outline r = None"
    "imagePath s = None" "controls_are False s"
  shows "\<exists>s'. step (ExtractResolved name Decoded (Some r)) s = Inr s' \<and>
           imagePath s' = None \<and> imagePlaceholder_hidden s' = imagePlaceholder_hidden s \<and>
           controls_are False s' \<and> \<not> dialog_waiting s' \<and>
           errorBar_hidden s' = errorBar_hidden s \<and> new_effects s s' = [] \<and>
           extractedSignatureData s' = Some r"
  using assms
  by (simp add: extractSignature_resume_def controls_are_def new_effects_def)

text \<open>
  The same result after an earlier extraction that gave an outline: the path of the
  earlier file is still shown and the controls are still enabled, while the extracted
  data is the object without outline.\<close>

lemma outline_less_result_keeps_what_was_shown:
  "map image_state
     (trace [ExtractResolved ''a.png'' Decoded (Some traced_nothing),
             PickerClick, PickerChange (Some png_file),
             ExtractResolved ''a.png'' Decoded (Some traced_outline),
             PickerClick, PickerChange (Some png_file),
             ExtractResolved ''a.png'' Decoded (Some traced_nothing)] awaiting_image) =
     [(None, False, Some traced_nothing, False, True),
      (None, False, Some traced_nothing, True, True),
      (None, False, Some traced_nothing, True, True),
      (Some ''M0 0L1 1'', True, Some traced_outline, False, True),
      (Some ''M0 0L1 1'', True, Some traced_outline, True, True),
      (Some ''M0 0L1 1'', True, Some traced_outline, True, True),
      (Some ''M0 0L1 1'', True, Some traced_nothing, False, True)]"
  by (simp add: awaiting_image_def image_state_def eval_defs image_defs traced_nothing_def
      controls_are_def)

subsection \<open>Committing\<close>

lemma new_effects_append: "effects s' = effects s @ es \<Longrightarrow> new_effects s s' = es"
  by (simp add: new_effects_def)

lemma getOutline_total:
  assumes "currentEditor s = Some ed"
  shows "\<exists>data. getOutline c s = Inr data"
proof (cases "currentTab s")
  case None
  then show ?thesis by (simp add: getOutline_def)
next
  case (Some t)
  with assms show ?thesis by (cases t) (simp_all add: getOutline_def)
qed

lemma add_unchecked:
  assumes "currentEditor s = Some ed" "getOutline c s = Inr data" "\<not> saveCheckbox_checked s"
  shows "\<exists>s'. add c [] [] s = Inr s' \<and> \<not> overlay_active s' \<and>
           errorBar_hidden s' = errorBar_hidden s \<and>
           effects s' =
             effects s @
             [AddSignature data DEFAULT_HEIGHT_IN_PAGE (description_value s) None] @
             (if overlay_active s then [OverlayClose] else [])"
  using assms
  by (simp add: add_def bind_r_def saveSignature_def finish_def emit_def)

lemma add_rejected:
  assumes "currentEditor s = Some ed" "getOutline c s = Inr (Some p)" "saveCheckbox_checked s"
    "\<not> truthy_uuid (co_create c)"
  shows "\<exists>s'. add c [] [] s = Inr s' \<and> \<not> overlay_active s' \<and>
           errorBar_hidden s' = errorBar_hidden s \<and>
           effects s' =
             effects s @
             [CompressSignature (p_newCurves p) (p_areContours p) (p_thickness p) (p_width p)
                (p_height p),
              StoreCreate (description_value s), ConsoleWarn,
              AddSignature (Some p) DEFAULT_HEIGHT_IN_PAGE (description_value s) (co_create c)] @
             (if overlay_active s then [OverlayClose] else [])"
proof (cases "co_create c")
  case None
  with assms show ?thesis
    by (simp add: add_def bind_r_def saveSignature_def finish_def emit_def Let_def)
next
  case (Some u)
  with assms(4) have "\<not> truthy_uuid (Some u)" by simp
  with assms Some show ?thesis
    by (simp add: add_def bind_r_def saveSignature_def finish_def emit_def Let_def)
qed

lemma add_stored:
  assumes "currentEditor s = Some ed" "getOutline c s = Inr (Some p)" "saveCheckbox_checked s"
    "truthy_uuid (co_create c)" "addSignatureToolbarButton s"
  shows "\<exists>s' u. add c [] [] s = Inr s' \<and> co_create c = Some u \<and> \<not> overlay_active s' \<and>
           errorBar_hidden s' = errorBar_hidden s \<and>
           effects s' =
             effects s @
             [CompressSignature (p_newCurves p) (p_areContours p) (p_thickness p) (p_width p)
                (p_height p),
              StoreCreate (description_value s)] @
             (if co_processDrawnLines c then [ToolbarButton u (description_value s)] else []) @
             [AddSignature (Some p) DEFAULT_HEIGHT_IN_PAGE (description_value s) (co_create c)] @
             (if overlay_active s then [OverlayClose] else [])"
proof (cases "co_create c")
  case None
  with assms(4) show ?thesis by (simp add: truthy_uuid_def)
next
  case (Some u)
  with assms(4) have "truthy_uuid (Some u)" by simp
  with assms Some show ?thesis
    by (simp add: add_def bind_r_def saveSignature_def finish_def emit_def Let_def
        addToolbarButton_def)
qed

text \<open>
  Where a commit does reach the editor. Let it find the host editor, the toolbar button
  and, when the save checkbox is checked, a payload for the current tab, and let nothing
  happen to the dialog while it awaits. Then \<^verbatim>\<open>#add\<close> does not throw, it calls
  \<^verbatim>\<open>addSignature\<close> exactly once, and afterwards the dialog is not the active overlay.
  If moreover the checkbox is checked and the store's \<^verbatim>\<open>create\<close> returns a falsy
  value, the calls made are, in order: the compression, \<^verbatim>\<open>create\<close>, the warning on
  the console, \<^verbatim>\<open>addSignature\<close> with the payload, the default height, the
  description and the falsy value as id, and the closing; no toolbar entry is made and
  the error bar is left as it was.\<close>

lemma commit_with_all_in_place:
  assumes "currentEditor s = Some ed" "addSignatureToolbarButton s"
    and "saveCheckbox_checked s \<longrightarrow> (\<exists>p. getOutline c s = Inr (Some p))"
  shows "\<exists>s' data. add c [] [] s = Inr s' \<and> getOutline c s = Inr data \<and>
           length (filter is_addSignature (new_effects s s')) = 1 \<and>
           \<not> overlay_active s' \<and>
           (overlay_active s \<longrightarrow> last (new_effects s s') = OverlayClose) \<and>
           (saveCheckbox_checked s \<and> \<not> truthy_uuid (co_create c) \<longrightarrow>
              (\<exists>p. data = Some p \<and> errorBar_hidden s' = errorBar_hidden s \<and>
                 new_effects s s' =
                   [CompressSignature (p_newCurves p) (p_areContours p) (p_thickness p)
                      (p_width p) (p_height p),
                    StoreCreate (description_value s), ConsoleWarn,
                    AddSignature (Some p) DEFAULT_HEIGHT_IN_PAGE (description_value s)
                      (co_create c)] @
                   (if overlay_active s then [OverlayClose] else [])))"
proof (cases "saveCheckbox_checked s")
  case False
  from getOutline_total [OF assms(1)] obtain data where data: "getOutline c s = Inr data"
    by blast
  from add_unchecked [OF assms(1) data False]
  obtain s' where s': "add c [] [] s = Inr s'" "\<not> overlay_active s'"
    "effects s' =
       effects s @ [AddSignature data DEFAULT_HEIGHT_IN_PAGE (description_value s) None] @
       (if overlay_active s then [OverlayClose] else [])"
    by blast
  from new_effects_append [OF s'(3)] s'(1,2) data False show ?thesis by simp
next
  case True
  with assms(3) obtain p where p: "getOutline c s = Inr (Some p)" by blast
  show ?thesis
  proof (cases "truthy_uuid (co_create c)")
    case False
    from add_rejected [OF assms(1) p True False]
    obtain s' where s': "add c [] [] s = Inr s'" "\<not> overlay_active s'"
      "errorBar_hidden s' = errorBar_hidden s"
      "effects s' =
         effects s @
         [CompressSignature (p_newCurves p) (p_areContours p) (p_thickness p) (p_width p)
            (p_height p),
          StoreCreate (description_value s), ConsoleWarn,
          AddSignature (Some p) DEFAULT_HEIGHT_IN_PAGE (description_value s) (co_create c)] @
         (if overlay_active s then [OverlayClose] else [])"
      by blast
    from new_effects_append [OF s'(4)] s'(1,2,3) p True False show ?thesis by simp
  next
    case stored: True
    from add_stored [OF assms(1) p True stored assms(2)]
    obtain s' u where s': "add c [] [] s = Inr s'" "\<not> overlay_active s'"
      "effects s' =
         effects s @
         [CompressSignature (p_newCurves p) (p_areContours p) (p_thickness p) (p_width p)
            (p_height p),
          StoreCreate (description_value s)] @
         (if co_processDrawnLines c then [ToolbarButton u (description_value s)] else []) @
         [AddSignature (Some p) DEFAULT_HEIGHT_IN_PAGE (description_value s) (co_create c)] @
         (if overlay_active s then [OverlayClose] else [])"
      by blast
    from new_effects_append [OF s'(3)] s'(1,2) p True stored show ?thesis by simp
  qed
qed

text \<open>
  C6 at a commit whose record the store accepts, in a viewer without the toolbar button.
  With "abc" typed and the save checkbox checked, \<^verbatim>\<open>#add\<close> compresses the payload and
  has the store create the record; \<^verbatim>\<open>#addToolbarButton\<close> then throws on the missing
  button. \<^verbatim>\<open>addSignature\<close> is never called and the dialog stays open, although the
  record is stored.\<close>

theorem commit_lost_without_toolbar_button:
  "saveCheckbox_checked without_toolbar_button \<and> overlay_active without_toolbar_button \<and>
   isl (add accepting_store [] [] without_toolbar_button) \<and>
   commit_state without_toolbar_button (ending (add accepting_store [] [] without_toolbar_button)) =
     ([CompressSignature [[0, 0, 1, 1]] True 0 1 1, StoreCreate ''abc''], True)"
  by (simp add: without_toolbar_button_def eval_defs listener_defs commit_defs)

text \<open>
  Two more commits that do not reach the editor. The host editor returns no payload for
  the typed text: destructuring it throws before anything is called. The dialog is
  cancelled and closed while the store creates the record: the toolbar entry is made,
  and the call of \<^verbatim>\<open>addSignature\<close> on the editor, by then \<^verbatim>\<open>null\<close>, throws.\<close>

lemma commit_lost_without_payload:
  "saveCheckbox_checked typed_abc \<and> overlay_active typed_abc \<and>
   isl (add (rejecting_store\<lparr>co_getFromText := None\<rparr>) [] [] typed_abc) \<and>
   commit_state typed_abc (ending (add (rejecting_store\<lparr>co_getFromText := None\<rparr>) [] [] typed_abc)) =
     ([], True)"
  by (simp add: typed_abc_def eval_defs listener_defs commit_defs)

lemma commit_lost_when_closed_meanwhile:
  "saveCheckbox_checked typed_abc \<and>
   isl (add accepting_store [] [CancelClick, CloseEvent] typed_abc) \<and>
   commit_state typed_abc (ending (add accepting_store [] [CancelClick, CloseEvent] typed_abc)) =
     ([CompressSignature [[0, 0, 1, 1]] True 0 1 1, StoreCreate ''abc'', OverlayClose,
       EditorRemove, AddEditListeners, ToolbarButton ''uuid-1'' ''abc''], False)"
  by (simp add: typed_abc_def eval_defs listener_defs commit_defs)

subsection \<open>A full store\<close>

lemma initCurrentTab_session:
  "session_view (initCurrentTab r s) = session_view s"
  "saveCheckbox_checked (initCurrentTab r s) = saveCheckbox_checked s"
  "effects (initCurrentTab r s) = effects s"
  by (simp_all add: initCurrentTab_def initTypeTab_def initDrawTab_def initImageTab_def
      disableButtons_def session_view_def Let_def split: option.splits tab.splits)

lemma initTab_session: "initTab n s = Inr s' \<Longrightarrow> session_view s' = session_view s"
  by (clarsimp simp add: initTab_def bind_r_def snapshotDescription_def setCurrentTab_def
      restoreDescription_def resetCommon_def initCurrentTab_session Let_def
      split: if_splits option.splits)
    (simp_all add: session_view_def)

lemma pointermove_listener_session:
  "pointermove_listener wh off s = Inr s' \<Longrightarrow> session_view s' = session_view s"
  by (clarsimp simp add: pointermove_listener_def push_point_def Let_def session_view_def
      split: option.splits if_splits)

lemma dispatch_pointermove_session:
  "dispatch_pointermove off ls s = Inr s' \<Longrightarrow> session_view s' = session_view s"
proof (induction ls arbitrary: s)
  case Nil
  then show ?case by simp
next
  case (Cons wh ls)
  from Cons.prems obtain s1 where s1: "pointermove_listener wh off s = Inr s1"
    and rest: "dispatch_pointermove off ls s1 = Inr s'"
    by (auto split: sum.splits prod.splits)
  from pointermove_listener_session [OF s1] Cons.IH [OF rest] show ?case by simp
qed

lemma pointerup_listener_session:
  "pointerup_listener pId s = Inr (gone, s') \<Longrightarrow> session_view s' = session_view s"
  by (clarsimp simp add: pointerup_listener_def Let_def session_view_def
      split: option.splits if_splits)

lemma dispatch_pointerup_session:
  "dispatch_pointerup pId ls s = Inr (rest, s') \<Longrightarrow> session_view s' = session_view s"
proof (induction ls arbitrary: s rest)
  case Nil
  then show ?case by simp
next
  case (Cons wh ls)
  from Cons.prems obtain gone s1 rest1 where s1: "pointerup_listener pId s = Inr (gone, s1)"
    and r: "dispatch_pointerup pId ls s1 = Inr (rest1, s')"
    by (simp add: bind_r_def split: sum.splits prod.splits)
  from pointerup_listener_session [OF s1] Cons.IH [OF r] show ?case by simp
qed

lemma handlers_session:
  "drawCallback e s = Inr s' \<Longrightarrow> session_view s' = session_view s"
  "drawThickness_input_listener s = Inr s' \<Longrightarrow> session_view s' = session_view s"
  "extractSignature_resume name dec traced s = Inr s' \<Longrightarrow> session_view s' = session_view s"
  by (clarsimp simp add: drawCallback_def firstStroke_def beginStroke_def
      drawThickness_input_listener_def extractSignature_resume_def showError_def showImage_def
      emit_def disableButtons_def Let_def session_view_def
      split: option.splits if_splits decode_result.splits)+

lemma image_listeners_session:
  "session_view (imagePicker_click s) = session_view s"
  "session_view (imagePicker_change fo s) = session_view s"
  "session_view (imagePicker_cancel s) = session_view s"
  "session_view (imagePlaceholder_drop files s) = session_view s"
  by (simp_all add: imagePicker_click_def imagePicker_change_def imagePicker_cancel_def
      imagePlaceholder_drop_def extractSignature_begin_def showError_def emit_def
      session_view_def Let_def split: option.splits)

lemma step_session:
  assumes "step e s = Inr s'"
  shows "session_view s' = session_view s"
proof (cases e)
  case (TabClick n)
  with assms initTab_session [of "Some n" "s\<lparr>panels_selected := Some n\<rparr>" s']
  show ?thesis by (simp add: tabCallback_def session_view_def)
next
  case ClearClick
  with assms initTab_session [of None s s'] show ?thesis by (simp add: clearButton_click_def)
next
  case (TypeInput v)
  with assms show ?thesis
    by (auto simp add: typeInput_input_listener_def disableButtons_def Let_def session_view_def
        split: if_splits)
next
  case (DescriptionInput v)
  with assms show ?thesis
    by (auto simp add: typeTab_description_listener_def description_input_listener_def Let_def
        session_view_def split: if_splits)
next
  case (PointerDown pd)
  with assms handlers_session(1) [of pd s s'] show ?thesis by (auto split: if_splits)
next
  case (PointerMove ox oy)
  with assms dispatch_pointermove_session [of "(ox, oy)" "strokeListeners s" s s']
  show ?thesis by simp
next
  case (PointerUp pId)
  with assms obtain rest s1 where d: "dispatch_pointerup pId (strokeListeners s) s = Inr (rest, s1)"
    and s': "s' = s1\<lparr>strokeListeners := rest\<rparr>"
    by (auto simp add: bind_r_def split: sum.splits prod.splits)
  from dispatch_pointerup_session [OF d] s' show ?thesis by (simp add: session_view_def)
next
  case (ThicknessInput v)
  with assms handlers_session(2) [of "s\<lparr>drawThickness_value := v\<rparr>" s']
  show ?thesis by (auto simp add: Let_def session_view_def split: if_splits)
next
  case (ExtractResolved name dec traced)
  with assms
    handlers_session(3) [of name dec traced "s\<lparr>pendingExtract := remove1 name (pendingExtract s)\<rparr>" s']
  show ?thesis by (auto simp add: session_view_def split: if_splits)
next
  case (L10nResolved d)
  with assms show ?thesis
    by (auto simp add: l10n_then_def Let_def session_view_def split: if_splits)
next
  case PickerClick
  with assms image_listeners_session(1) [of s] show ?thesis by (auto split: if_splits)
next
  case (PickerChange fo)
  with assms image_listeners_session(2) [of fo s] show ?thesis by (auto split: if_splits)
next
  case PickerCancel
  with assms image_listeners_session(3) [of s] show ?thesis by (auto split: if_splits)
next
  case (Drop files)
  with assms image_listeners_session(4) [of files s] show ?thesis by (auto split: if_splits)
next
  case ClearDescriptionClick
  with assms show ?thesis by (auto simp add: clearDescription_click_def session_view_def)
next
  case ErrorCloseClick
  with assms show ?thesis by (auto simp add: errorCloseButton_click_def session_view_def)
next
  case SaveCheckboxToggle
  with assms show ?thesis by (auto simp add: session_view_def)
qed

lemma run_session: "run es s = Inr s' \<Longrightarrow> session_view s' = session_view s"
proof (induction es arbitrary: s)
  case Nil
  then show ?case by simp
next
  case (Cons e es)
  from Cons.prems obtain s1 where s1: "step e s = Inr s1" and r: "run es s1 = Inr s'"
    by (rule run_ConsD)
  from step_session [OF s1] Cons.IH [OF r] show ?case by simp
qed

lemma open_dialog_full:
  assumes "currentTab s = None" "tabsToAltText s = None"
  shows "\<exists>s'. open_dialog full ed s = Inr s' \<and>
           session_view s' = (Some ed, True, full, addSignatureToolbarButton s) \<and>
           saveCheckbox_checked s' = (\<not> full) \<and>
           effects s' = effects s @ [RemoveEditListeners, StoreIsFull, OverlayOpen]"
  using assms
  by (simp add: open_dialog_def tabCallback_def initTab_def bind_r_def snapshotDescription_def
      setCurrentTab_def restoreDescription_def emit_def Let_def initCurrentTab_session)
    (simp add: session_view_def)

lemma add_checked_creates:
  assumes "currentEditor s = Some ed" "getOutline c s = Inr (Some p)" "saveCheckbox_checked s"
    "addSignatureToolbarButton s"
  shows "\<exists>s'. add c [] [] s = Inr s' \<and> StoreCreate (description_value s) \<in> set (new_effects s s')"
proof (cases "truthy_uuid (co_create c)")
  case True
  from add_stored [OF assms(1) assms(2) assms(3) True assms(4)]
  obtain s' es where "add c [] [] s = Inr s'"
    "effects s' =
       effects s @
       [CompressSignature (p_newCurves p) (p_areContours p) (p_thickness p) (p_width p)
          (p_height p),
        StoreCreate (description_value s)] @ es"
    by blast
  then show ?thesis by (auto simp add: new_effects_def)
next
  case False
  from add_rejected [OF assms(1) assms(2) assms(3) False] obtain s' where "add c [] [] s = Inr s'"
    "effects s' =
       effects s @
       [CompressSignature (p_newCurves p) (p_areContours p) (p_thickness p) (p_width p)
          (p_height p),
        StoreCreate (description_value s), ConsoleWarn,
        AddSignature (Some p) DEFAULT_HEIGHT_IN_PAGE (description_value s) (co_create c)] @
       (if overlay_active s then [OverlayClose] else [])"
    by blast
  then show ?thesis by (auto simp add: new_effects_def)
qed

subsection \<open>What happens while a commit awaits\<close>

text \<open>Listeners only add to the calls recorded, also when they throw.\<close>

lemma extends_iff: "extends s s' = (\<exists>es. effects s' = effects s @ es)"
proof
  assume "extends s s'"
  then have "effects s' = effects s @ drop (length (effects s)) (effects s')"
    unfolding extends_def by (metis append_take_drop_id)
  then show "\<exists>es. effects s' = effects s @ es" ..
next
  assume "\<exists>es. effects s' = effects s @ es"
  then show "extends s s'" unfolding extends_def by auto
qed

lemma extends_refl: "extends s s"
  by (simp add: extends_iff)

lemma extends_trans: "extends s t \<Longrightarrow> extends t u \<Longrightarrow> extends s u"
  by (auto simp add: extends_iff)

lemma extends_same: "effects s' = effects s \<Longrightarrow> extends s s'"
  by (simp add: extends_iff)

lemma extends_member: "extends s s' \<Longrightarrow> x \<in> set (effects s) \<Longrightarrow> x \<in> set (effects s')"
  by (auto simp add: extends_iff)

lemma initTab_effects: "effects (ending (initTab n s)) = effects s"
  by (simp add: initTab_def bind_r_def ending_def snapshotDescription_def setCurrentTab_def
      restoreDescription_def resetCommon_def initCurrentTab_session Let_def
      split: option.splits)

lemma pointermove_listener_effects: "effects (ending (pointermove_listener wh off s)) = effects s"
  by (simp add: pointermove_listener_def push_point_def ending_def Let_def split: option.splits)

lemma dispatch_pointermove_effects: "effects (ending (dispatch_pointermove off ls s)) = effects s"
proof (induction ls arbitrary: s)
  case Nil
  then show ?case by (simp add: ending_def)
next
  case (Cons wh ls)
  show ?case
  proof (cases "pointermove_listener wh off s")
    case (Inl r)
    obtain e s1 where r: "r = (e, s1)" by (cases r)
    from pointermove_listener_effects [of wh off s] Inl r have "effects s1 = effects s"
      by (simp add: ending_def)
    with Cons.IH [of s1] Inl r show ?thesis by (simp add: ending_def)
  next
    case (Inr s1)
    from pointermove_listener_effects [of wh off s] Inr have "effects s1 = effects s"
      by (simp add: ending_def)
    with Cons.IH [of s1] Inr show ?thesis by simp
  qed
qed

lemma pointerup_listener_effects:
  "pointerup_listener pId s = Inr (gone, s') \<Longrightarrow> effects s' = effects s"
  "pointerup_listener pId s = Inl (e, s') \<Longrightarrow> effects s' = effects s"
  by (auto simp add: pointerup_listener_def Let_def split: option.splits if_splits)

lemma dispatch_pointerup_effects:
  "dispatch_pointerup pId ls s = Inr (rest, s') \<Longrightarrow> effects s' = effects s"
  "dispatch_pointerup pId ls s = Inl (e, rest, s') \<Longrightarrow> effects s' = effects s"
proof (induction ls arbitrary: s rest s' e)
  case Nil
  {
    case 1
    then show ?case by simp
  next
    case 2
    then show ?case by simp
  }
next
  case (Cons wh ls)
  {
    case 1
    then show ?case
      using Cons.IH pointerup_listener_effects
      by (fastforce split: sum.splits prod.splits)
  next
    case 2
    then show ?case
      using Cons.IH pointerup_listener_effects
      by (fastforce split: sum.splits prod.splits)
  }
qed


lemma drawCallback_effects: "effects (ending (drawCallback e s)) = effects s"
  by (simp add: drawCallback_def firstStroke_def beginStroke_def disableButtons_def ending_def
      Let_def split: option.splits)

lemma drawThickness_effects: "effects (ending (drawThickness_input_listener s)) = effects s"
  by (simp add: drawThickness_input_listener_def ending_def Let_def split: option.splits)

lemma extractSignature_resume_extends: "extends s (ending (extractSignature_resume name dec traced s))"
  by (simp add: extractSignature_resume_def showError_def showImage_def emit_def
      disableButtons_def ending_def extends_iff Let_def
      split: decode_result.splits option.splits)

lemma image_listeners_extends:
  "extends s (imagePicker_click s)" "extends s (imagePicker_change fo s)"
  "extends s (imagePicker_cancel s)" "extends s (imagePlaceholder_drop files s)"
  by (simp_all add: imagePicker_click_def imagePicker_change_def imagePicker_cancel_def
      imagePlaceholder_drop_def extractSignature_begin_def showError_def emit_def
      extends_iff Let_def split: option.splits)

lemma step_extends: "extends s (ending (step e s))"
proof (cases e)
  case (TabClick n)
  with initTab_effects [of "Some n" "s\<lparr>panels_selected := Some n\<rparr>"] show ?thesis
    by (simp add: tabCallback_def extends_iff)
next
  case ClearClick
  with initTab_effects [of None s] show ?thesis
    by (simp add: clearButton_click_def extends_iff)
next
  case (TypeInput v)
  then show ?thesis
    by (simp add: typeInput_input_listener_def disableButtons_def ending_def extends_iff Let_def)
next
  case (DescriptionInput v)
  then show ?thesis
    by (simp add: typeTab_description_listener_def description_input_listener_def ending_def
        extends_iff Let_def)
next
  case ClearDescriptionClick
  then show ?thesis by (simp add: clearDescription_click_def ending_def extends_iff)
next
  case ErrorCloseClick
  then show ?thesis by (simp add: errorCloseButton_click_def ending_def extends_iff)
next
  case SaveCheckboxToggle
  then show ?thesis by (simp add: ending_def extends_iff)
next
  case (PointerDown pd)
  with drawCallback_effects [of pd s] show ?thesis by (simp add: extends_iff ending_def)
next
  case (PointerMove ox oy)
  with dispatch_pointermove_effects [of "(ox, oy)" "strokeListeners s" s] show ?thesis
    by (simp add: extends_iff)
next
  case (PointerUp pId)
  show ?thesis
  proof (cases "dispatch_pointerup pId (strokeListeners s) s")
    case (Inl r)
    obtain e rest s1 where r: "r = (e, rest, s1)" by (cases r)
    from dispatch_pointerup_effects(2) [of pId "strokeListeners s" s e rest s1] Inl r PointerUp
    show ?thesis by (simp add: ending_def extends_iff)
  next
    case (Inr r)
    obtain rest s1 where r: "r = (rest, s1)" by (cases r)
    from dispatch_pointerup_effects(1) [of pId "strokeListeners s" s rest s1] Inr r PointerUp
    show ?thesis by (simp add: ending_def extends_iff)
  qed
next
  case (ThicknessInput v)
  with drawThickness_effects [of "s\<lparr>drawThickness_value := v\<rparr>"] show ?thesis
    by (simp add: extends_iff ending_def Let_def)
next
  case (L10nResolved d)
  then show ?thesis by (simp add: l10n_then_def ending_def extends_iff Let_def)
next
  case PickerClick
  with image_listeners_extends(1) [of s] show ?thesis by (simp add: ending_def extends_refl)
next
  case (PickerChange fo)
  with image_listeners_extends(2) [of s fo] show ?thesis by (simp add: ending_def extends_refl)
next
  case PickerCancel
  with image_listeners_extends(3) [of s] show ?thesis by (simp add: ending_def extends_refl)
next
  case (Drop files)
  with image_listeners_extends(4) [of s files] show ?thesis by (simp add: ending_def extends_refl)
next
  case (ExtractResolved name dec traced)
  with extractSignature_resume_extends
    [of "s\<lparr>pendingExtract := remove1 name (pendingExtract s)\<rparr>" name dec traced]
  show ?thesis by (simp add: extends_iff ending_def)
qed

lemma close_extends: "extends s (ending (close s))"
  by (simp add: close_def resetCommon_def bind_r_def emit_def disableButtons_def ending_def
      extends_iff Let_def split: option.splits)

lemma act_extends: "extends s (ending (act a s))"
proof (cases a)
  case (Ui e)
  then show ?thesis by (simp add: step_extends)
next
  case CancelClick
  then show ?thesis by (simp add: cancel_def finish_def emit_def ending_def extends_iff)
next
  case CloseEvent
  then show ?thesis by (simp add: close_extends)
qed

lemma play_extends: "extends s (play acts s)"
proof (induction acts arbitrary: s)
  case Nil
  then show ?case by (simp add: extends_refl)
next
  case (Cons a acts)
  from extends_trans [OF act_extends [of s a] Cons.IH [of "ending (act a s)"]]
  show ?case by simp
qed

lemma emit_effects: "effects (emit x s) = effects s @ [x]"
  by (simp add: emit_def)

lemma add_always_creates:
  assumes "getOutline c s = Inr (Some p)" "saveCheckbox_checked s"
  shows "StoreCreate (description_value s) \<in>
           set (new_effects s (ending (add c during_compress during_create s)))"
proof -
  let ?s1 = "play during_compress
               (emit (CompressSignature (p_newCurves p) (p_areContours p) (p_thickness p)
                        (p_width p) (p_height p)) s)"
  let ?s2 = "play during_create (emit (StoreCreate (description_value s)) ?s1)"
  have e1: "extends s ?s1"
    using play_extends [of "emit (CompressSignature (p_newCurves p) (p_areContours p)
        (p_thickness p) (p_width p) (p_height p)) s" during_compress]
    by (auto simp add: extends_iff emit_effects)
  then obtain es1 where es1: "effects ?s1 = effects s @ es1" by (auto simp add: extends_iff)
  from play_extends [of "emit (StoreCreate (description_value s)) ?s1" during_create]
  obtain es where "effects ?s2 = effects (emit (StoreCreate (description_value s)) ?s1) @ es"
    unfolding extends_iff by blast
  moreover have "effects (emit (StoreCreate (description_value s)) ?s1) =
      effects s @ es1 @ [StoreCreate (description_value s)]"
    by (simp only: emit_effects es1 append_assoc)
  ultimately have es2: "effects ?s2 = effects s @ es1 @ [StoreCreate (description_value s)] @ es"
    by (simp only: append_assoc)
  have "\<exists>es3. effects (ending (add c during_compress during_create s)) = effects ?s2 @ es3"
    using assms
    by (simp add: add_def saveSignature_def addToolbarButton_def bind_r_def ending_def finish_def
        emit_def Let_def split: option.splits)
  then obtain es3 where "effects (ending (add c during_compress during_create s)) =
      effects s @ es1 @ [StoreCreate (description_value s)] @ es @ es3"
    unfolding es2 by auto
  then show ?thesis by (simp add: new_effects_def)
qed

text \<open>
  C8. \<^verbatim>\<open>open\<close> on a closed dialog that has its toolbar button, with a store that
  reports to be full, asks the store, leaves the save checkbox unchecked and flags the
  save container. The user can check the box. After any events that do not throw,
  whenever the box is checked and the current tab yields a payload, the save container
  is still flagged as full and the commit nevertheless does not throw and calls the
  store's \<^verbatim>\<open>create\<close> with the description; and whatever happens to the dialog
  while the commit awaits the codec and the store, \<^verbatim>\<open>create\<close> is called with that
  description.\<close>

theorem full_storage_never_blocks_saving:
  assumes "currentTab s0 = None" "tabsToAltText s0 = None" "addSignatureToolbarButton s0"
  shows "\<exists>s1. open_dialog True ed s0 = Inr s1 \<and> StoreIsFull \<in> set (new_effects s0 s1) \<and>
           \<not> saveCheckbox_checked s1 \<and> saveContainer_fullStorage s1 \<and>
           (\<exists>s2. step SaveCheckboxToggle s1 = Inr s2 \<and> saveCheckbox_checked s2) \<and>
           (\<forall>es s p. run es s1 = Inr s \<and> saveCheckbox_checked s \<and>
                     getOutline c s = Inr (Some p) \<longrightarrow>
              saveContainer_fullStorage s \<and>
              (\<exists>s'. add c [] [] s = Inr s' \<and>
                    StoreCreate (description_value s) \<in> set (new_effects s s')) \<and>
              (\<forall>during_compress during_create.
                 StoreCreate (description_value s) \<in>
                   set (new_effects s (ending (add c during_compress during_create s)))))"
proof -
  from open_dialog_full [OF assms(1) assms(2), of True ed] assms(3)
  obtain s1 where s1: "open_dialog True ed s0 = Inr s1"
    "session_view s1 = (Some ed, True, True, True)"
    "\<not> saveCheckbox_checked s1"
    "effects s1 = effects s0 @ [RemoveEditListeners, StoreIsFull, OverlayOpen]"
    by auto
  from new_effects_append [OF s1(4)] have e: "StoreIsFull \<in> set (new_effects s0 s1)" by simp
  from s1(2) have f: "saveContainer_fullStorage s1" by (simp add: session_view_def)
  from s1(3) have t: "\<exists>s2. step SaveCheckboxToggle s1 = Inr s2 \<and> saveCheckbox_checked s2"
    by simp
  have c: "saveContainer_fullStorage s \<and>
           (\<exists>s'. add c [] [] s = Inr s' \<and> StoreCreate (description_value s) \<in> set (new_effects s s')) \<and>
           (\<forall>during_compress during_create.
              StoreCreate (description_value s) \<in>
                set (new_effects s (ending (add c during_compress during_create s))))"
    if h: "run es s1 = Inr s \<and> saveCheckbox_checked s \<and> getOutline c s = Inr (Some p)"
    for es s p
  proof -
    from h have r: "run es s1 = Inr s" and ch: "saveCheckbox_checked s"
      and g: "getOutline c s = Inr (Some p)" by simp_all
    from run_session [OF r] s1(2)
    have sv: "currentEditor s = Some ed" "saveContainer_fullStorage s"
      "addSignatureToolbarButton s"
      by (simp_all add: session_view_def)
    from add_checked_creates [OF sv(1) g ch sv(3)] sv(2) add_always_creates [OF g ch]
    show ?thesis by simp
  qed
  from s1(1) e s1(3) f t c show ?thesis by blast
qed

theorem full_storage_never_blocks_saving_witness:
  "currentTab closed_dialog = None \<and> tabsToAltText closed_dialog = None \<and>
   addSignatureToolbarButton closed_dialog \<and>
   (\<exists>s1. open_dialog True \<lparr>ed_drawId_is_null = True\<rparr> closed_dialog = Inr s1 \<and>
         \<not> saveCheckbox_checked s1 \<and> saveContainer_fullStorage s1 \<and>
         (\<exists>s. run [SaveCheckboxToggle, TypeInput ''abc''] s1 = Inr s \<and>
              saveCheckbox_checked s \<and> saveContainer_fullStorage s \<and>
              getOutline rejecting_store s = Inr (Some traced_outline) \<and>
              (\<exists>s'. add rejecting_store [] [] s = Inr s' \<and>
                    StoreCreate ''abc'' \<in> set (new_effects s s')) \<and>
              StoreCreate ''abc'' \<in>
                set (new_effects s
                       (ending (add rejecting_store [Ui (TypeInput ''abcd'')]
                                  [CancelClick, CloseEvent] s)))))"
proof -
  have c: "currentTab closed_dialog = None" "tabsToAltText closed_dialog = None"
    "addSignatureToolbarButton closed_dialog"
    by (simp_all add: closed_dialog_def)
  from full_storage_never_blocks_saving [OF c, of "\<lparr>ed_drawId_is_null = True\<rparr>" rejecting_store]
  obtain s1 where s1: "open_dialog True \<lparr>ed_drawId_is_null = True\<rparr> closed_dialog = Inr s1"
    "\<not> saveCheckbox_checked s1" "saveContainer_fullStorage s1"
    and all: "\<forall>es s p. run es s1 = Inr s \<and> saveCheckbox_checked s \<and>
                getOutline rejecting_store s = Inr (Some p) \<longrightarrow>
              saveContainer_fullStorage s \<and>
              (\<exists>s'. add rejecting_store [] [] s = Inr s' \<and>
                    StoreCreate (description_value s) \<in> set (new_effects s s')) \<and>
              (\<forall>during_compress during_create.
                 StoreCreate (description_value s) \<in>
                   set (new_effects s
                          (ending (add rejecting_store during_compress during_create s))))"
    by blast
  have "\<exists>s. run [SaveCheckboxToggle, TypeInput ''abc'']
               (ending (open_dialog True \<lparr>ed_drawId_is_null = True\<rparr> closed_dialog)) = Inr s \<and>
            saveCheckbox_checked s \<and> description_value s = ''abc'' \<and>
            getOutline rejecting_store s = Inr (Some traced_outline)"
    by (simp add: eval_defs listener_defs getOutline_def rejecting_store_def)
  with s1(1) obtain s where s: "run [SaveCheckboxToggle, TypeInput ''abc''] s1 = Inr s"
    "saveCheckbox_checked s" "description_value s = ''abc''"
    "getOutline rejecting_store s = Inr (Some traced_outline)"
    by (auto simp add: ending_def)
  from all s(1,2,4)
  have "saveContainer_fullStorage s \<and>
      (\<exists>s'. add rejecting_store [] [] s = Inr s' \<and>
            StoreCreate (description_value s) \<in> set (new_effects s s')) \<and>
      (\<forall>during_compress during_create.
         StoreCreate (description_value s) \<in>
           set (new_effects s (ending (add rejecting_store during_compress during_create s))))"
    by blast
  then have "saveContainer_fullStorage s \<and>
      (\<exists>s'. add rejecting_store [] [] s = Inr s' \<and> StoreCreate ''abc'' \<in> set (new_effects s s')) \<and>
      StoreCreate ''abc'' \<in>
        set (new_effects s
               (ending (add rejecting_store [Ui (TypeInput ''abcd'')] [CancelClick, CloseEvent] s)))"
    unfolding s(3) by blast
  with c s1 s show ?thesis by blast
qed

end
